theory Spec2Isabelle
  imports Main
begin

section \<open>Values exchanged with the broker library\<close>

text \<open>
  The client of \<^verbatim>\<open>src/index.js\<close> wraps the callback interface of an AMQP library.  The
  library is outside the repository, so the model keeps it at arm's length: a channel and
  a connection are known only by their identity, an options object by its key/value pairs
  (it is handed on unchanged), a payload by its bytes.
\<close>

type_synonym chan = nat
type_synonym conn = nat
type_synonym options = "(string \<times> string) list"
type_synonym bytes = string

text \<open>
  A JavaScript exception value.  \<open>Error m\<close> is \<^verbatim>\<open>new Error(m)\<close>; the errors the broker
  library reports are values of the same type.  \<open>TypeError\<close> is what a property read on
  \<^verbatim>\<open>undefined\<close> throws, \<open>ReferenceError\<close> what reading an undeclared identifier throws,
  \<open>SyntaxError\<close> what \<^verbatim>\<open>JSON.parse\<close> throws.
\<close>

datatype exn = Error string | TypeError string | ReferenceError string | SyntaxError string

fun exn_name :: "exn \<Rightarrow> string" where
  "exn_name (Error m) = ''Error''"
| "exn_name (TypeError m) = ''TypeError''"
| "exn_name (ReferenceError m) = ''ReferenceError''"
| "exn_name (SyntaxError m) = ''SyntaxError''"

fun exn_message :: "exn \<Rightarrow> string" where
  "exn_message (Error m) = m"
| "exn_message (TypeError m) = m"
| "exn_message (ReferenceError m) = m"
| "exn_message (SyntaxError m) = m"

text \<open>The text \<^verbatim>\<open>'' + err\<close> yields for an error object: its name, then its message.\<close>

definition toString :: "exn \<Rightarrow> string" where
  "toString e = (if exn_message e = [] then exn_name e else exn_name e @ '': '' @ exn_message e)"

text \<open>
  Reading the property \<open>p\<close> of \<^verbatim>\<open>undefined\<close>.  The message is the one of V8, the
  engine of Node.js, in its current versions:
  \<^verbatim>\<open>Cannot read properties of undefined (reading 'p')\<close>
  (older versions wrote \<^verbatim>\<open>Cannot read property 'p' of undefined\<close>).
\<close>

definition undefined_property :: "string \<Rightarrow> exn" where
  "undefined_property p =
     TypeError (''Cannot read properties of undefined (reading '' @ [CHR 0x27] @ p
                @ [CHR 0x27] @ '')'')"

text \<open>A raw delivery of the broker: the payload (\<^verbatim>\<open>msg.content\<close>) and the delivery tag.\<close>

datatype delivery = Delivery (content_of: bytes) (tag_of: nat)

subsection \<open>Configuration\<close>

record exchange =
  ex_channel :: string
  ex_name :: string
  ex_type :: string
  ex_options :: "options option"

record queue =
  q_channel :: string
  q_name :: string
  q_options :: "options option"

record binding =
  b_channel :: string
  b_queue :: string
  b_exchange :: string
  b_key :: string
  b_options :: "options option"

record conn_desc =
  protocol :: string
  hostname :: string
  port :: nat

text \<open>
  The configuration object.  A field that is \<open>None\<close> is absent (\<^verbatim>\<open>undefined\<close>).  An object
  and an array are truthy whatever they hold; a string is truthy unless it is empty.
\<close>

record opts =
  connection :: "conn_desc option"
  url :: "string option"
  exchanges :: "exchange list option"
  queues :: "queue list option"
  bindings :: "binding list option"

definition truthy_string :: "string option \<Rightarrow> bool" where
  "truthy_string s = (case s of None \<Rightarrow> False | Some u \<Rightarrow> u \<noteq> [])"

subsection \<open>Requests, reply handlers and the trace\<close>

datatype target = Descriptor conn_desc | Url string

text \<open>The primitives of the library that the client invokes, with their arguments.\<close>

datatype request =
    Connect target
  | CreateConfirmChannel conn
  | AssertExchange chan string string "options option"
  | AssertQueue chan string "options option"
  | BindQueue chan string string string "options option"
  | Publish chan string string bytes options
  | Ack chan delivery bool
  | AckAll chan
  | Nack chan delivery bool bool
  | NackAll chan bool
  | Close chan
  | Cancel chan "string option"

text \<open>
  The closure handed to the library with an assertion: the variables it captured, and
  whether the caller of the client supplied a callback.
\<close>

datatype handler =
    AssertExchangeCb string bool
  | AssertQueueCb string bool
  | BindQueueCb string string string string "options option" bool

text \<open>
  What an observer at the boundary sees, oldest first: a primitive invoked by the client
  (\<open>Call\<close>), the library answering a channel creation (\<open>ChannelReply\<close>), the library
  answering the assertion invoked at a position of the trace (\<open>Reply\<close>), an exception that
  leaves a reply handler into the library (\<open>Uncaught\<close>), a promise rejected with nobody
  listening (\<open>Unhandled\<close>), and the caller's callbacks being invoked.
\<close>

datatype event =
    Call request
  | ChannelReply "exn option" "chan option"
  | Reply nat "exn option"
  | Uncaught exn
  | Unhandled exn
  | ChannelCallback "exn option" "chan option"
  | AssertCallback "exn option"
  | ConnectCallback "exn option" "conn option"

section \<open>The client and its environment\<close>

text \<open>
  \<open>rabbitConn\<close>, \<open>channels\<close> and \<open>consumerTags\<close> are the fields of the class
  \<^verbatim>\<open>ZeroRabbit\<close>.  \<open>channels\<close> is a JavaScript \<^verbatim>\<open>Map\<close>: a key can be present and hold
  \<^verbatim>\<open>undefined\<close>, which is \<open>Some None\<close> here.  The other fields are the environment:
  \<open>trace\<close> is the record of the boundary, \<open>pending\<close> holds the assertions in flight
  (the position of the request in the trace, and its reply handler), and \<open>broker\<close> is
  the sequence of answers the library will give to the channel creations still to come
  (the error and the channel its callback receives).

  The library is taken to work as its callback interface does: a primitive accepts the
  request and returns, and the callback runs on a later turn of the event loop, when the
  reply has been read.  JavaScript runs a function to completion, so between two points
  where it awaits the broker an operation of the client is not interrupted.  The one
  thing the client awaits from the broker is the creation of a channel; the model reads
  that answer from \<open>broker\<close> at the point of the \<^verbatim>\<open>await\<close>.  Replies to assertions are
  awaited by nobody: they are delivered by \<open>deliver\<close> below, between operations, and
  their handlers touch none of the fields of the client.
\<close>

record world =
  rabbitConn :: "conn option"
  channels :: "string \<rightharpoonup> chan option"
  consumerTags :: "string \<rightharpoonup> string"
  trace :: "event list"
  pending :: "(nat \<times> handler) list"
  broker :: "nat \<Rightarrow> exn option \<times> chan option"

text \<open>
  An operation of the client takes the world and returns its result with the new world;
  a result \<open>Inl e\<close> is an exception thrown, or for an async function a rejected promise.
\<close>

type_synonym 'a op = "world \<Rightarrow> (exn + 'a) \<times> world"

definition emit :: "event list \<Rightarrow> world \<Rightarrow> world" where
  "emit es w = w\<lparr>trace := trace w @ es\<rparr>"

text \<open>Invoking a primitive of the library: the call goes on the trace.\<close>

definition invoke :: "request \<Rightarrow> world \<Rightarrow> world" where
  "invoke r w = emit [Call r] w"

text \<open>
  Invoking an assertion with its reply handler: the request is in flight until the
  reply is delivered.
\<close>

definition issue :: "request \<Rightarrow> handler \<Rightarrow> world \<Rightarrow> world" where
  "issue r h w = w\<lparr>trace := trace w @ [Call r], pending := pending w @ [(length (trace w), h)]\<rparr>"

text \<open>\<^verbatim>\<open>this.channels.get(channelName)\<close>: \<^verbatim>\<open>undefined\<close> when the key is absent.\<close>

definition channels_get :: "world \<Rightarrow> string \<Rightarrow> chan option" where
  "channels_get w channelName = (case channels w channelName of None \<Rightarrow> None | Some ch \<Rightarrow> ch)"

section \<open>The channel registry\<close>

definition setChannel :: "string \<Rightarrow> chan option \<Rightarrow> world \<Rightarrow> world" where
  "setChannel channelName ch w = w\<lparr>channels := (channels w)(channelName \<mapsto> ch)\<rparr>"

text \<open>
  The callback \<^verbatim>\<open>createConfirmChannelPromise\<close> gives to \<^verbatim>\<open>createConfirmChannel\<close>:
  \<^verbatim>\<open>if (err) { reject(err); }  this.setChannel(channelName, ch);  resolve(ch);\<close>
  A promise settles once, so after \<^verbatim>\<open>reject\<close> the \<^verbatim>\<open>resolve\<close> has no effect; the
  \<^verbatim>\<open>setChannel\<close> between them runs in both cases.  The result is how the promise settles.
\<close>

definition createConfirmChannel_cb ::
  "string \<Rightarrow> exn option \<times> chan option \<Rightarrow> world \<Rightarrow> (exn + chan option) \<times> world" where
  "createConfirmChannel_cb channelName reply w =
     (case reply of (err, ch) \<Rightarrow>
        ((case err of Some e \<Rightarrow> Inl e | None \<Rightarrow> Inr ch), setChannel channelName ch w))"

text \<open>
  The code of \<^verbatim>\<open>getChannel\<close> after its \<^verbatim>\<open>await\<close>, applied to the way the promise of
  \<^verbatim>\<open>createConfirmChannelPromise\<close> settled.  On a rejection the \<^verbatim>\<open>catch\<close> handler runs: with
  a callback it calls \<^verbatim>\<open>callback(err, undefined)\<close> and returns nothing, so \<^verbatim>\<open>ch\<close> is
  \<^verbatim>\<open>undefined\<close> and the code goes on to \<^verbatim>\<open>callback(undefined, ch)\<close>; without one it throws.
  With a callback the function returns \<^verbatim>\<open>undefined\<close>.
\<close>

definition getChannel_settled :: "bool \<Rightarrow> exn + chan option \<Rightarrow> chan option op" where
  "getChannel_settled callback r w =
     (case r of
        Inl err \<Rightarrow>
          if callback
          then (Inr None, emit [ChannelCallback (Some err) None, ChannelCallback None None] w)
          else (Inl (Error (''Error creating channel: '' @ toString err)), w)
      | Inr ch \<Rightarrow>
          if callback then (Inr None, emit [ChannelCallback None ch] w) else (Inr ch, w))"

text \<open>
  An async function runs until its first \<^verbatim>\<open>await\<close> on the broker and is resumed by the
  reply.  \<open>Now r\<close>: the function finished without the broker; \<open>Later\<close>: it is suspended on
  a channel creation it has requested.
\<close>

datatype 'a progress = Now 'a | Later

text \<open>
  \<^verbatim>\<open>getChannel\<close> up to its suspension.  The lookup, and for an unregistered name the
  executor of \<^verbatim>\<open>createConfirmChannelPromise\<close>, which calls
  \<^verbatim>\<open>this.rabbitConn.createConfirmChannel\<close>: without a connection that read throws inside
  the executor and the promise is rejected at once.
\<close>

definition getChannel_begin ::
  "string \<Rightarrow> bool \<Rightarrow> world \<Rightarrow> (exn + chan option) progress \<times> world" where
  "getChannel_begin channelName callback w =
     (case channels_get w channelName of
        None \<Rightarrow>
          (case rabbitConn w of
             None \<Rightarrow>
               (case getChannel_settled callback
                       (Inl (undefined_property ''createConfirmChannel'')) w of
                  (r, w1) \<Rightarrow> (Now r, w1))
           | Some c \<Rightarrow> (Later, invoke (CreateConfirmChannel c) w))
      | Some ch \<Rightarrow>
          if callback then (Now (Inr None), emit [ChannelCallback None (Some ch)] w)
          else (Now (Inr (Some ch)), w))"

text \<open>\<^verbatim>\<open>getChannel\<close> from the reply of the library to the end.\<close>

definition getChannel_resume ::
  "string \<Rightarrow> bool \<Rightarrow> exn option \<times> chan option \<Rightarrow> chan option op" where
  "getChannel_resume channelName callback reply w =
     (case createConfirmChannel_cb channelName reply
             (emit [ChannelReply (fst reply) (snd reply)] w) of
        (r, w1) \<Rightarrow> getChannel_settled callback r w1)"

text \<open>The next answer of the library to a channel creation.\<close>

definition next_reply :: "world \<Rightarrow> (exn option \<times> chan option) \<times> world" where
  "next_reply w = (broker w 0, w\<lparr>broker := (\<lambda>n. broker w (Suc n))\<rparr>)"

text \<open>
  \<^verbatim>\<open>createConfirmChannelPromise\<close> awaited by a caller that runs alone: the request, then
  the reply.
\<close>

definition createConfirmChannelPromise :: "string \<Rightarrow> chan option op" where
  "createConfirmChannelPromise channelName w =
     (case rabbitConn w of
        None \<Rightarrow> (Inl (undefined_property ''createConfirmChannel''), w)
      | Some c \<Rightarrow>
          (case next_reply (invoke (CreateConfirmChannel c) w) of
             (reply, w1) \<Rightarrow>
               createConfirmChannel_cb channelName reply
                 (emit [ChannelReply (fst reply) (snd reply)] w1)))"

text \<open>\<^verbatim>\<open>getChannel\<close> awaited by a caller that runs alone.\<close>

definition getChannel :: "string \<Rightarrow> bool \<Rightarrow> chan option op" where
  "getChannel channelName callback w =
     (case getChannel_begin channelName callback w of
        (Now r, w1) \<Rightarrow> (r, w1)
      | (Later, w1) \<Rightarrow>
          (case next_reply w1 of (reply, w2) \<Rightarrow> getChannel_resume channelName callback reply w2))"

section \<open>Assertions\<close>

text \<open>
  Each of the three functions awaits \<^verbatim>\<open>this.getChannel(channelName)\<close>, invokes the
  primitive on the channel with a reply handler, and returns: the promise it returns is
  resolved when the request has been handed to the library.  A channel that is
  \<^verbatim>\<open>undefined\<close> makes the method call throw.
\<close>

definition assertExchange ::
  "string \<Rightarrow> string \<Rightarrow> string \<Rightarrow> options option \<Rightarrow> bool \<Rightarrow> unit op" where
  "assertExchange channelName exName type options callback w =
     (case getChannel channelName False w of
        (Inl e, w1) \<Rightarrow> (Inl e, w1)
      | (Inr None, w1) \<Rightarrow> (Inl (undefined_property ''assertExchange''), w1)
      | (Inr (Some ch), w1) \<Rightarrow>
          (Inr (), issue (AssertExchange ch exName type options)
                     (AssertExchangeCb channelName callback) w1))"

definition assertQueue :: "string \<Rightarrow> string \<Rightarrow> options option \<Rightarrow> bool \<Rightarrow> unit op" where
  "assertQueue channelName qName options callback w =
     (case getChannel channelName False w of
        (Inl e, w1) \<Rightarrow> (Inl e, w1)
      | (Inr None, w1) \<Rightarrow> (Inl (undefined_property ''assertQueue''), w1)
      | (Inr (Some ch), w1) \<Rightarrow>
          (Inr (), issue (AssertQueue ch qName options) (AssertQueueCb channelName callback) w1))"

definition bindQueue ::
  "string \<Rightarrow> string \<Rightarrow> string \<Rightarrow> string \<Rightarrow> options option \<Rightarrow> bool \<Rightarrow> unit op" where
  "bindQueue channelName qName exName key options callback w =
     (case getChannel channelName False w of
        (Inl e, w1) \<Rightarrow> (Inl e, w1)
      | (Inr None, w1) \<Rightarrow> (Inl (undefined_property ''bindQueue''), w1)
      | (Inr (Some ch), w1) \<Rightarrow>
          (Inr (), issue (BindQueue ch qName exName key options)
                     (BindQueueCb channelName qName exName key options callback) w1))"

text \<open>
  The reply handlers, applied to the error the library reports (\<open>None\<close>: success).  The
  result is the events the handler causes and the exception it throws, if any.  With a
  callback the handler passes the reply on; without one it throws on an error and
  otherwise only writes a debug line.
\<close>

definition assertExchange_cb :: "string \<Rightarrow> bool \<Rightarrow> exn option \<Rightarrow> event list \<times> exn option" where
  "assertExchange_cb channelName callback err =
     (if callback then ([AssertCallback err], None)
      else (case err of
              Some e \<Rightarrow> ([], Some (Error (''Error in assertExchange(): '' @ toString e)))
            | None \<Rightarrow> ([], None)))"

definition assertQueue_cb :: "string \<Rightarrow> bool \<Rightarrow> exn option \<Rightarrow> event list \<times> exn option" where
  "assertQueue_cb channelName callback err =
     (if callback then ([AssertCallback err], None)
      else (case err of
              Some e \<Rightarrow> ([], Some (Error (''Error in ZeroRabbit.assertQueue(): '' @ toString e)))
            | None \<Rightarrow> ([], None)))"

definition bindQueue_cb ::
  "string \<Rightarrow> string \<Rightarrow> string \<Rightarrow> string \<Rightarrow> options option \<Rightarrow> bool \<Rightarrow> exn option
     \<Rightarrow> event list \<times> exn option" where
  "bindQueue_cb channelName qName exName key options callback err =
     (if callback then ([AssertCallback err], None)
      else (case err of
              Some e \<Rightarrow> ([], Some (Error (''Error in RabbitMQ.bindQueue(): '' @ toString e)))
            | None \<Rightarrow> ([], None)))"

fun run_handler :: "handler \<Rightarrow> exn option \<Rightarrow> event list \<times> exn option" where
  "run_handler (AssertExchangeCb channelName callback) err =
     assertExchange_cb channelName callback err"
| "run_handler (AssertQueueCb channelName callback) err =
     assertQueue_cb channelName callback err"
| "run_handler (BindQueueCb channelName qName exName key options callback) err =
     bindQueue_cb channelName qName exName key options callback err"

text \<open>
  The library answers the assertion invoked at position \<open>i\<close> of the trace: its handler
  runs, on a later turn of the event loop than the call that issued the request.  An
  exception of the handler unwinds into the library, not into the async function that
  issued the request, which has returned by then.  A reply for a request that is not in
  flight is no reply.
\<close>

definition deliver :: "nat \<Rightarrow> exn option \<Rightarrow> world \<Rightarrow> world" where
  "deliver i err w =
     (case map_of (pending w) i of
        None \<Rightarrow> w
      | Some h \<Rightarrow>
          (case run_handler h err of
             (es, thrown) \<Rightarrow>
               w\<lparr>pending := filter (\<lambda>p. fst p \<noteq> i) (pending w),
                  trace := trace w @ [Reply i err] @ es
                             @ (case thrown of None \<Rightarrow> [] | Some e \<Rightarrow> [Uncaught e])\<rparr>))"

section \<open>Topology\<close>

text \<open>
  \<^verbatim>\<open>asyncForEach\<close> awaits the callback on each element in turn; a rejection leaves the
  loop.  The index and the array, which the callbacks of \<^verbatim>\<open>setupTopology\<close> ignore, are
  not passed.
\<close>

fun asyncForEach :: "'a list \<Rightarrow> ('a \<Rightarrow> unit op) \<Rightarrow> unit op" where
  "asyncForEach [] callback w = (Inr (), w)"
| "asyncForEach (x # array) callback w =
     (case callback x w of
        (Inl e, w1) \<Rightarrow> (Inl e, w1)
      | (Inr u, w1) \<Rightarrow> asyncForEach array callback w1)"

definition setupExchanges :: "opts \<Rightarrow> unit op" where
  "setupExchanges opts w =
     (case exchanges opts of
        None \<Rightarrow> (Inr (), w)
      | Some array \<Rightarrow>
          asyncForEach array
            (\<lambda>exchange. assertExchange (ex_channel exchange) (ex_name exchange)
                           (ex_type exchange) (ex_options exchange) False) w)"

definition setupQueues :: "opts \<Rightarrow> unit op" where
  "setupQueues opts w =
     (case queues opts of
        None \<Rightarrow> (Inr (), w)
      | Some array \<Rightarrow>
          asyncForEach array
            (\<lambda>queue. assertQueue (q_channel queue) (q_name queue) (q_options queue) False) w)"

definition setupBindings :: "opts \<Rightarrow> unit op" where
  "setupBindings opts w =
     (case bindings opts of
        None \<Rightarrow> (Inr (), w)
      | Some array \<Rightarrow>
          asyncForEach array
            (\<lambda>binding. bindQueue (b_channel binding) (b_queue binding) (b_exchange binding)
                          (b_key binding) (b_options binding) False) w)"

text \<open>The three blocks of \<^verbatim>\<open>setupTopology\<close>, each awaited before the next.\<close>

definition setupTopology :: "opts \<Rightarrow> unit op" where
  "setupTopology opts w =
     (case setupExchanges opts w of
        (Inl e, w1) \<Rightarrow> (Inl e, w1)
      | (Inr u, w1) \<Rightarrow>
          (case setupQueues opts w1 of
             (Inl e, w2) \<Rightarrow> (Inl e, w2)
           | (Inr u, w2) \<Rightarrow> setupBindings opts w2))"

section \<open>Connecting\<close>

definition msg_both :: string where
  \<open>msg_both = ''Config must include one of "connection" or "url", but not both!''\<close>

definition msg_neither :: string where
  \<open>msg_neither = ''"connection" or "url" not found in configuration: please include one!''\<close>

text \<open>
  \<^verbatim>\<open>connect\<close> up to and including the call of \<^verbatim>\<open>amqp.connect\<close>.  The function is not
  async: its two checks throw to the caller.
\<close>

definition connect :: "opts \<Rightarrow> bool \<Rightarrow> unit op" where
  "connect opts callback w =
     (if connection opts \<noteq> None \<and> truthy_string (url opts) then (Inl (Error msg_both), w)
      else (case connection opts of
              Some c \<Rightarrow> (Inr (), invoke (Connect (Descriptor c)) w)
            | None \<Rightarrow>
                (case url opts of
                   Some u \<Rightarrow>
                     if u \<noteq> [] then (Inr (), invoke (Connect (Url u)) w)
                     else (Inl (Error msg_neither), w)
                 | None \<Rightarrow> (Inl (Error msg_neither), w))))"

text \<open>
  The handler \<^verbatim>\<open>connect\<close> gives to \<^verbatim>\<open>amqp.connect\<close>, applied to the error and the
  connection the library reports.  On an error it evaluates \<^verbatim>\<open>if (cb)\<close>; the parameter of
  \<^verbatim>\<open>connect\<close> is named \<^verbatim>\<open>callback\<close> and no \<^verbatim>\<open>cb\<close> is declared in the file, so that read
  throws before either branch runs.  On success it stores the connection and applies the
  topology; \<^verbatim>\<open>then\<close> has no rejection handler, and the callback is called only when
  \<^verbatim>\<open>setupTopology\<close> resolves.
\<close>

definition connect_cb :: "opts \<Rightarrow> bool \<Rightarrow> exn option \<Rightarrow> conn option \<Rightarrow> unit op" where
  "connect_cb opts callback err conn w =
     (case err of
        Some e \<Rightarrow> (Inl (ReferenceError ''cb is not defined''), w)
      | None \<Rightarrow>
          (case setupTopology opts (w\<lparr>rabbitConn := conn\<rparr>) of
             (Inl x, w1) \<Rightarrow> (Inr (), emit [Unhandled x] w1)
           | (Inr u, w1) \<Rightarrow>
               (Inr (), if callback then emit [ConnectCallback err conn] w1 else w1)))"

section \<open>Acknowledging, cancelling and closing\<close>

text \<open>
  The wrapper \<^verbatim>\<open>ZeroRabbitMsg\<close>: the decoded body and the raw delivery.  The type of
  the body is the runtime's type of JSON values.
\<close>

record 'j ZeroRabbitMsg =
  content :: 'j
  msg :: delivery

definition getJsonMsg :: "'j ZeroRabbitMsg \<Rightarrow> 'j" where
  "getJsonMsg m = content m"

definition getMsg :: "'j ZeroRabbitMsg \<Rightarrow> delivery" where
  "getMsg m = msg m"

definition msg_not_found :: string where
  "msg_not_found = ''Channel was not found!, check your spelling, was the channel created?''"

definition checkChannelExists :: "chan option \<Rightarrow> exn + unit" where
  "checkChannelExists ch = (case ch of None \<Rightarrow> Inl (Error msg_not_found) | Some c \<Rightarrow> Inr ())"

text \<open>
  After \<^verbatim>\<open>checkChannelExists\<close> has returned, the channel is defined; \<open>on_channel\<close> is
  the method call that follows it.
\<close>

definition on_channel :: "chan option \<Rightarrow> (chan \<Rightarrow> world \<Rightarrow> world) \<Rightarrow> unit op" where
  "on_channel ch f w =
     (case checkChannelExists ch of
        Inl e \<Rightarrow> (Inl e, w)
      | Inr u \<Rightarrow> (case ch of None \<Rightarrow> (Inr (), w) | Some c \<Rightarrow> (Inr (), f c w)))"

definition ack :: "string \<Rightarrow> 'j ZeroRabbitMsg \<Rightarrow> bool \<Rightarrow> unit op" where
  "ack channelName message allUpTo w =
     (let m = getMsg message; ch = channels_get w channelName
      in on_channel ch (\<lambda>c. invoke (Ack c m allUpTo)) w)"

definition ackAll :: "string \<Rightarrow> unit op" where
  "ackAll channelName w =
     (let ch = channels_get w channelName in on_channel ch (\<lambda>c. invoke (AckAll c)) w)"

definition nack :: "string \<Rightarrow> 'j ZeroRabbitMsg \<Rightarrow> bool \<Rightarrow> bool \<Rightarrow> unit op" where
  "nack channelName message allUpTo requeue w =
     (let m = getMsg message; ch = channels_get w channelName
      in on_channel ch (\<lambda>c. invoke (Nack c m allUpTo requeue)) w)"

definition nackAll :: "string \<Rightarrow> bool \<Rightarrow> unit op" where
  "nackAll channelName requeue w =
     (let ch = channels_get w channelName in on_channel ch (\<lambda>c. invoke (NackAll c requeue)) w)"

definition closeChannel :: "string \<Rightarrow> unit op" where
  "closeChannel channelName w =
     (let ch = channels_get w channelName
      in on_channel ch
           (\<lambda>c w1. (invoke (Close c) w1)\<lparr>channels := (channels w1)(channelName := None)\<rparr>) w)"

definition cancelChannel :: "string \<Rightarrow> unit op" where
  "cancelChannel channelName w =
     (let consumerTag = consumerTags w channelName; ch = channels_get w channelName
      in on_channel ch (\<lambda>c. invoke (Cancel c consumerTag)) w)"

section \<open>Publishing and the message wrapper\<close>





section \<open>Observations\<close>

text \<open>
  The entries of a configuration in the order \<^verbatim>\<open>setupTopology\<close> reads them: the
  exchanges, the queues, the bindings, each list as given.
\<close>

datatype entry = ExchangeEntry exchange | QueueEntry queue | BindingEntry binding

definition entries :: "opts \<Rightarrow> entry list" where
  "entries opts =
     map ExchangeEntry (case exchanges opts of None \<Rightarrow> [] | Some array \<Rightarrow> array)
     @ map QueueEntry (case queues opts of None \<Rightarrow> [] | Some array \<Rightarrow> array)
     @ map BindingEntry (case bindings opts of None \<Rightarrow> [] | Some array \<Rightarrow> array)"

fun entry_channel :: "entry \<Rightarrow> string" where
  "entry_channel (ExchangeEntry e) = ex_channel e"
| "entry_channel (QueueEntry q) = q_channel q"
| "entry_channel (BindingEntry b) = b_channel b"

text \<open>The assertion of an entry, on a given channel.\<close>

fun request_on :: "chan \<Rightarrow> entry \<Rightarrow> request" where
  "request_on ch (ExchangeEntry e) = AssertExchange ch (ex_name e) (ex_type e) (ex_options e)"
| "request_on ch (QueueEntry q) = AssertQueue ch (q_name q) (q_options q)"
| "request_on ch (BindingEntry b) =
     BindQueue ch (b_queue b) (b_exchange b) (b_key b) (b_options b)"

text \<open>
  The assertion of an entry on the channel the registry holds for the entry's channel
  name; \<open>None\<close> when the registry holds none.
\<close>

definition expected :: "world \<Rightarrow> entry \<Rightarrow> request option" where
  "expected w e = map_option (\<lambda>ch. request_on ch e) (channels_get w (entry_channel e))"

fun is_assertion :: "request \<Rightarrow> bool" where
  "is_assertion (AssertExchange ch n t os) = True"
| "is_assertion (AssertQueue ch n os) = True"
| "is_assertion (BindQueue ch q e k os) = True"
| "is_assertion r = False"

fun assertion_of :: "event \<Rightarrow> request option" where
  "assertion_of (Call r) = (if is_assertion r then Some r else None)"
| "assertion_of e = None"

text \<open>The assertions invoked in a trace, in the order of their invocation.\<close>

definition assertions :: "event list \<Rightarrow> request list" where
  "assertions es = List.map_filter assertion_of es"

text \<open>What an operation added to the trace.\<close>

definition since :: "world \<Rightarrow> world \<Rightarrow> event list" where
  "since w w' = drop (length (trace w)) (trace w')"

text \<open>
  Reading a trace with one bit of state, whether a channel creation is unanswered:
  a primitive may be invoked only when none is, and the answer to a channel creation
  comes only when one is.  The result is the state after the trace, \<open>None\<close> when the
  trace breaks the rule.
\<close>

fun is_creation :: "request \<Rightarrow> bool" where
  "is_creation (CreateConfirmChannel c) = True"
| "is_creation r = False"

fun one_at_a_time :: "bool \<Rightarrow> event list \<Rightarrow> bool option" where
  "one_at_a_time b [] = Some b"
| "one_at_a_time b (Call r # es) = (if b then None else one_at_a_time (is_creation r) es)"
| "one_at_a_time b (ChannelReply err ch # es) = (if b then one_at_a_time False es else None)"
| "one_at_a_time b (e # es) = one_at_a_time b es"

text \<open>
  Reading a trace for assertions in flight together.  \<open>a\<close> is the position of an
  assertion that has been invoked and not answered, \<open>i\<close> the position of the next event.
  The result is whether some assertion is invoked while another is unanswered.
\<close>

fun overlap :: "nat option \<Rightarrow> nat \<Rightarrow> event list \<Rightarrow> bool" where
  "overlap a i [] = False"
| "overlap a i (Call r # es) =
     (if is_assertion r then (a \<noteq> None \<or> overlap (Some i) (Suc i) es)
      else overlap a (Suc i) es)"
| "overlap a i (Reply j err # es) = overlap (if a = Some j then None else a) (Suc i) es"
| "overlap a i (e # es) = overlap a (Suc i) es"

text \<open>
  The callbacks \<^verbatim>\<open>setupTopology\<close> gives to \<^verbatim>\<open>asyncForEach\<close>, as one function of the
  entry, and the reply handler and the method each one uses.
\<close>

fun process_entry :: "entry \<Rightarrow> unit op" where
  "process_entry (ExchangeEntry e) =
     assertExchange (ex_channel e) (ex_name e) (ex_type e) (ex_options e) False"
| "process_entry (QueueEntry q) = assertQueue (q_channel q) (q_name q) (q_options q) False"
| "process_entry (BindingEntry b) =
     bindQueue (b_channel b) (b_queue b) (b_exchange b) (b_key b) (b_options b) False"

fun handler_of :: "entry \<Rightarrow> handler" where
  "handler_of (ExchangeEntry e) = AssertExchangeCb (ex_channel e) False"
| "handler_of (QueueEntry q) = AssertQueueCb (q_channel q) False"
| "handler_of (BindingEntry b) =
     BindQueueCb (b_channel b) (b_queue b) (b_exchange b) (b_key b) (b_options b) False"

fun method_name :: "entry \<Rightarrow> string" where
  "method_name (ExchangeEntry e) = ''assertExchange''"
| "method_name (QueueEntry q) = ''assertQueue''"
| "method_name (BindingEntry b) = ''bindQueue''"

text \<open>Every channel the registry of \<open>w\<close> holds, the registry of \<open>w'\<close> holds under the same name.\<close>

definition keeps :: "world \<Rightarrow> world \<Rightarrow> bool" where
  "keeps w w' = (\<forall>n c. channels_get w n = Some c \<longrightarrow> channels_get w' n = Some c)"

text \<open>
  The world after a channel creation for the name \<open>n\<close> that the library has answered:
  the request and the answer are on the trace, the answer is consumed, and the channel
  the callback received is stored under the name, whatever the error.
\<close>

definition created :: "string \<Rightarrow> conn \<Rightarrow> world \<Rightarrow> world" where
  "created n c w =
     w\<lparr>channels := (channels w)(n \<mapsto> snd (broker w 0)),
       trace := trace w @ [Call (CreateConfirmChannel c),
                           ChannelReply (fst (broker w 0)) (snd (broker w 0))],
       broker := (\<lambda>n. broker w (Suc n))\<rparr>"

text \<open>
  The text each reply handler puts before the error of the library when it throws, which
  it does when the caller gave no callback.
\<close>

fun failure_text :: "entry \<Rightarrow> string" where
  "failure_text (ExchangeEntry e) = ''Error in assertExchange(): ''"
| "failure_text (QueueEntry q) = ''Error in ZeroRabbit.assertQueue(): ''"
| "failure_text (BindingEntry b) = ''Error in RabbitMQ.bindQueue(): ''"

text \<open>
  A reply handler \<open>p\<close>, given as the position of its request on the trace and the handler, is
  the one waiting for the answer to the assertion of the entry \<open>e\<close>: it is the handler the
  entry's operation installs when it has no callback, and its request is the assertion of
  \<open>e\<close> on the channel registered for \<open>e\<close>.
\<close>

definition in_flight_for :: "world \<Rightarrow> nat \<times> handler \<Rightarrow> entry \<Rightarrow> bool" where
  "in_flight_for w p e =
     (snd p = handler_of e \<and> fst p < length (trace w) \<and> expected w e \<noteq> None \<and>
      assertion_of (trace w ! fst p) = expected w e)"

text \<open>
  The configuration cut after its first \<open>n\<close> entries, in the order \<^verbatim>\<open>setupTopology\<close>
  reads them.
\<close>

definition first_entries :: "nat \<Rightarrow> opts \<Rightarrow> opts" where
  "first_entries n opts =
     (let es = (case exchanges opts of None \<Rightarrow> [] | Some array \<Rightarrow> array);
          qs = (case queues opts of None \<Rightarrow> [] | Some array \<Rightarrow> array);
          bs = (case bindings opts of None \<Rightarrow> [] | Some array \<Rightarrow> array)
      in opts\<lparr>exchanges := Some (take n es),
              queues := Some (take (n - length es) qs),
              bindings := Some (take (n - length es - length qs) bs)\<rparr>)"

text \<open>
  An answer of the library to a channel creation that grants it: no error, and a channel.
\<close>

definition granted :: "exn option \<times> chan option \<Rightarrow> bool" where
  "granted reply = (fst reply = None \<and> snd reply \<noteq> None)"



section \<open>Two callers at once\<close>

text \<open>
  Two calls of \<^verbatim>\<open>getChannel\<close> for one name, the second made before the library has
  answered the first, as when a caller does not await the first call.  An async function
  runs to its first suspension when it is called, so the first call does its lookup and
  its request, then the second does; the replies arrive afterwards, in the order of the
  requests, and each resumes its caller.  When the first call finishes at once, the second
  is an ordinary call after it.
\<close>

definition getChannel_concurrently ::
  "string \<Rightarrow> world \<Rightarrow> ((exn + chan option) \<times> (exn + chan option)) \<times> world" where
  "getChannel_concurrently channelName w =
     (case getChannel_begin channelName False w of
        (Now r1, w1) \<Rightarrow>
          (case getChannel channelName False w1 of (r2, w2) \<Rightarrow> ((r1, r2), w2))
      | (Later, w1) \<Rightarrow>
          (case getChannel_begin channelName False w1 of
             (Now r2, w2) \<Rightarrow>
               (case next_reply w2 of
                  (reply1, w3) \<Rightarrow>
                    (case getChannel_resume channelName False reply1 w3 of
                       (r1, w4) \<Rightarrow> ((r1, r2), w4)))
           | (Later, w2) \<Rightarrow>
               (case next_reply w2 of
                  (reply1, w3) \<Rightarrow>
                    (case getChannel_resume channelName False reply1 w3 of
                       (r1, w4) \<Rightarrow>
                         (case next_reply w4 of
                            (reply2, w5) \<Rightarrow>
                              (case getChannel_resume channelName False reply2 w5 of
                                 (r2, w6) \<Rightarrow> ((r1, r2), w6)))))))"

section \<open>Example inputs\<close>

text \<open>A library that answers the \<open>n\<close>-th channel creation with a new channel.\<close>

definition broker_ok :: "nat \<Rightarrow> exn option \<times> chan option" where
  "broker_ok n = (None, Some (100 + n))"

text \<open>A connected client with no channel yet.\<close>

definition fresh_world :: world where
  "fresh_world =
     \<lparr>rabbitConn = Some 1, channels = Map.empty, consumerTags = Map.empty,
      trace = [], pending = [], broker = broker_ok\<rparr>"

definition topology1 :: opts where
  "topology1 =
     \<lparr>connection = None, url = Some ''amqp://localhost'',
      exchanges = Some [\<lparr>ex_channel = ''pub'', ex_name = ''logs'', ex_type = ''fanout'',
                          ex_options = None\<rparr>],
      queues = Some [\<lparr>q_channel = ''sub'', q_name = ''q1'', q_options = None\<rparr>,
                     \<lparr>q_channel = ''sub'', q_name = ''q2'', q_options = None\<rparr>],
      bindings = Some [\<lparr>b_channel = ''sub'', b_queue = ''q1'', b_exchange = ''logs'',
                         b_key = ''k'', b_options = None\<rparr>]\<rparr>"

text \<open>Two exchanges on one channel, and three queues on one channel.\<close>

definition exchanges2 :: opts where
  "exchanges2 =
     \<lparr>connection = None, url = Some ''amqp://localhost'',
      exchanges = Some [\<lparr>ex_channel = ''c'', ex_name = ''e1'', ex_type = ''fanout'',
                          ex_options = None\<rparr>,
                        \<lparr>ex_channel = ''c'', ex_name = ''e2'', ex_type = ''fanout'',
                          ex_options = None\<rparr>],
      queues = None, bindings = None\<rparr>"

definition queues3 :: opts where
  "queues3 =
     \<lparr>connection = None, url = Some ''amqp://localhost'', exchanges = None,
      queues = Some [\<lparr>q_channel = ''c'', q_name = ''q1'', q_options = None\<rparr>,
                     \<lparr>q_channel = ''c'', q_name = ''q2'', q_options = None\<rparr>,
                     \<lparr>q_channel = ''c'', q_name = ''q3'', q_options = None\<rparr>],
      bindings = None\<rparr>"

text \<open>A library that grants one channel and refuses every further one, and one that
  refuses them all.\<close>

definition broker_full :: "nat \<Rightarrow> exn option \<times> chan option" where
  "broker_full n = (if n = 0 then (None, Some 100) else (Some (Error ''CHANNEL_MAX''), None))"

definition full_world :: world where
  "full_world =
     \<lparr>rabbitConn = Some 1, channels = Map.empty, consumerTags = Map.empty,
      trace = [], pending = [], broker = broker_full\<rparr>"

definition broker_refusing :: "nat \<Rightarrow> exn option \<times> chan option" where
  "broker_refusing n = (Some (Error ''CHANNEL_MAX''), None)"

definition refusing_world :: world where
  "refusing_world =
     \<lparr>rabbitConn = Some 1, channels = Map.empty, consumerTags = Map.empty,
      trace = [], pending = [], broker = broker_refusing\<rparr>"

text \<open>A configuration with a descriptor and a URL, and one with neither.\<close>

definition opts_both :: opts where
  "opts_both =
     \<lparr>connection = Some \<lparr>protocol = ''amqp'', hostname = ''localhost'', port = 5672\<rparr>,
      url = Some ''amqp://localhost'', exchanges = None, queues = None, bindings = None\<rparr>"

definition opts_neither :: opts where
  "opts_neither =
     \<lparr>connection = None, url = None, exchanges = None, queues = None, bindings = None\<rparr>"

text \<open>
  An example of a runtime, to run the model on.  It is not the JavaScript runtime and no
  theorem about \<^verbatim>\<open>publish\<close> or the wrapper depends on it: it is a small printer and a reader
  of JSON text, over values whose numbers are natural numbers of any size.  The printer
  writes no white space, escapes in a string the double quote and the backslash only (a
  control character is written as it is), and writes every member of an object, also
  under a key written before.  The reader reads what the printer writes, with as many
  nested calls as the text has characters: it takes no white space, no sign, fraction or
  exponent, takes a number with leading zeros, and reads the character after a backslash
  as itself.  Its strings are taken to be ASCII, on which UTF-8 is the identity, so the
  two buffer functions are the identity.  On \<^verbatim>\<open>{"a":1}\<close> it writes and reads what
  JavaScript does.
\<close>


datatype json = JNull | JBool bool | JNumber nat | JString string | JArray "json list"
  | JObject "(string \<times> json) list"

definition digit :: "nat \<Rightarrow> char" where
  "digit d = ''0123456789'' ! d"

function digits :: "nat \<Rightarrow> string" where
  "digits n = (if n < 10 then [digit n] else digits (n div 10) @ [digit (n mod 10)])"
  by pat_completeness auto
termination
  by (relation "measure id") auto

declare digits.simps [simp del]

fun escape :: "string \<Rightarrow> string" where
  "escape [] = []"
| "escape (c # cs) =
     (if c = CHR 0x22 \<or> c = CHR 0x5C then CHR 0x5C # c # escape cs else c # escape cs)"

definition quoted :: "string \<Rightarrow> string" where
  "quoted s = [CHR 0x22] @ escape s @ [CHR 0x22]"

fun commas :: "string list \<Rightarrow> string" where
  "commas [] = []"
| "commas [s] = s"
| "commas (s # ss) = s @ '','' @ commas ss"

fun stringify :: "json \<Rightarrow> string" where
  "stringify JNull = ''null''"
| "stringify (JBool b) = (if b then ''true'' else ''false'')"
| "stringify (JNumber n) = digits n"
| "stringify (JString s) = quoted s"
| "stringify (JArray xs) = ''['' @ commas (map stringify xs) @ '']''"
| "stringify (JObject ms) =
     ''{'' @ commas (map (\<lambda>m. quoted (fst m) @ '':'' @ stringify (snd m)) ms) @ ''}''"


definition is_digit :: "char \<Rightarrow> bool" where
  "is_digit c = (c \<in> set ''0123456789'')"









section \<open>The registry, step by step\<close>

lemma getChannel_eq:
  "getChannel channelName callback w =
     (case channels_get w channelName of
        Some ch \<Rightarrow>
          if callback then (Inr None, emit [ChannelCallback None (Some ch)] w)
          else (Inr (Some ch), w)
      | None \<Rightarrow>
          (case createConfirmChannelPromise channelName w of
             (r, w1) \<Rightarrow> getChannel_settled callback r w1))"
  by (simp add: getChannel_def getChannel_begin_def getChannel_resume_def
      createConfirmChannelPromise_def next_reply_def split: option.splits prod.splits)

lemma getChannel_found:
  "channels_get w channelName = Some ch \<Longrightarrow>
   getChannel channelName False w = (Inr (Some ch), w)"
  by (simp add: getChannel_eq)

lemma getChannel_no_conn:
  "channels_get w channelName = None \<Longrightarrow> rabbitConn w = None \<Longrightarrow>
   getChannel channelName False w =
     (Inl (Error (''Error creating channel: ''
                  @ toString (undefined_property ''createConfirmChannel''))), w)"
  by (simp add: getChannel_eq createConfirmChannelPromise_def getChannel_settled_def)

lemma getChannel_create:
  "channels_get w channelName = None \<Longrightarrow> rabbitConn w = Some c \<Longrightarrow>
   getChannel channelName False w =
     ((case fst (broker w 0) of
         Some e \<Rightarrow> Inl (Error (''Error creating channel: '' @ toString e))
       | None \<Rightarrow> Inr (snd (broker w 0))),
      created channelName c w)"
  by (cases "broker w 0")
    (simp add: getChannel_eq createConfirmChannelPromise_def getChannel_settled_def
      next_reply_def invoke_def emit_def createConfirmChannel_cb_def setChannel_def created_def
      split: option.splits)

section \<open>Topology application as one loop\<close>

lemma asyncForEach_append:
  "asyncForEach (xs @ ys) callback w =
     (case asyncForEach xs callback w of
        (Inl e, w1) \<Rightarrow> (Inl e, w1)
      | (Inr u, w1) \<Rightarrow> asyncForEach ys callback w1)"
  by (induction xs arbitrary: w) (auto split: prod.splits sum.splits)

lemma asyncForEach_map:
  "asyncForEach (map f xs) callback w = asyncForEach xs (\<lambda>x. callback (f x)) w"
  by (induction xs arbitrary: w) (auto split: prod.splits sum.splits)

lemma setupTopology_loop: "setupTopology opts w = asyncForEach (entries opts) process_entry w"
  by (simp add: setupTopology_def setupExchanges_def setupQueues_def setupBindings_def
      entries_def asyncForEach_append asyncForEach_map
      split: option.splits prod.splits sum.splits)

lemma request_on_kind [simp]:
  "is_assertion (request_on ch e)" "\<not> is_creation (request_on ch e)"
  by (cases e; simp)+

lemma process_entry_found:
  "channels_get w (entry_channel e) = Some ch \<Longrightarrow>
   process_entry e w = (Inr (), issue (request_on ch e) (handler_of e) w)"
  by (cases e) (simp_all add: assertExchange_def assertQueue_def bindQueue_def getChannel_found)

lemma process_entry_no_conn:
  "channels_get w (entry_channel e) = None \<Longrightarrow> rabbitConn w = None \<Longrightarrow>
   process_entry e w =
     (Inl (Error (''Error creating channel: ''
                  @ toString (undefined_property ''createConfirmChannel''))), w)"
  by (cases e)
    (simp_all add: assertExchange_def assertQueue_def bindQueue_def getChannel_no_conn)

lemma process_entry_create:
  "channels_get w (entry_channel e) = None \<Longrightarrow> rabbitConn w = Some c \<Longrightarrow>
   process_entry e w =
     (case broker w 0 of
        (Some x, ch) \<Rightarrow>
          (Inl (Error (''Error creating channel: '' @ toString x)),
           created (entry_channel e) c w)
      | (None, None) \<Rightarrow>
          (Inl (undefined_property (method_name e)), created (entry_channel e) c w)
      | (None, Some ch) \<Rightarrow>
          (Inr (), issue (request_on ch e) (handler_of e) (created (entry_channel e) c w)))"
  by (cases e; cases "broker w 0")
    (auto simp add: assertExchange_def assertQueue_def bindQueue_def getChannel_create
      split: option.splits)

lemma assertions_append: "assertions (xs @ ys) = assertions xs @ assertions ys"
  by (simp add: assertions_def List.map_filter_def)

lemma one_at_a_time_append:
  "one_at_a_time b (xs @ ys) =
     (case one_at_a_time b xs of None \<Rightarrow> None | Some b' \<Rightarrow> one_at_a_time b' ys)"
  by (induction b xs rule: one_at_a_time.induct) auto

lemma keeps_refl: "keeps w w"
  by (simp add: keeps_def)

lemma keeps_trans: "keeps w w1 \<Longrightarrow> keeps w1 w2 \<Longrightarrow> keeps w w2"
  by (simp add: keeps_def)

lemma keeps_issue: "keeps w (issue r h w)"
  by (simp add: keeps_def issue_def channels_get_def)

lemma keeps_created: "channels_get w n = None \<Longrightarrow> keeps w (created n c w)"
  by (auto simp add: keeps_def created_def channels_get_def split: option.splits)

lemma expected_keeps:
  "keeps w w' \<Longrightarrow> channels_get w (entry_channel e) = Some ch \<Longrightarrow>
   expected w' e = Some (request_on ch e)"
  by (simp add: keeps_def expected_def)

text \<open>
  One entry: what it adds to the trace, that it forgets no channel, and either the
  one assertion it invokes or the error it is rejected with.
\<close>

lemma process_entry_step:
  assumes "process_entry e w = (r, w1)"
  shows "\<exists>new. trace w1 = trace w @ new \<and> one_at_a_time False new = Some False \<and>
           keeps w w1 \<and>
           (case r of
              Inr u \<Rightarrow>
                \<exists>ch. channels_get w1 (entry_channel e) = Some ch \<and>
                     assertions new = [request_on ch e]
            | Inl x \<Rightarrow>
                assertions new = [] \<and>
                ((\<exists>err. x = Error (''Error creating channel: '' @ toString err)) \<or>
                 x = undefined_property (method_name e)))"
proof (cases "channels_get w (entry_channel e)")
  case (Some ch)
  with assms have "r = Inr ()" "w1 = issue (request_on ch e) (handler_of e) w"
    by (simp_all add: process_entry_found)
  then show ?thesis using Some
    by (simp add: issue_def keeps_def channels_get_def assertions_def List.map_filter_def)
next
  case None
  show ?thesis
  proof (cases "rabbitConn w")
    case no: None
    with None assms show ?thesis
      by (auto simp add: process_entry_no_conn keeps_refl assertions_def List.map_filter_def)
  next
    case (Some c)
    let ?w = "created (entry_channel e) c w"
    have k: "keeps w ?w" using None by (rule keeps_created)
    have t: "trace ?w = trace w @ [Call (CreateConfirmChannel c),
                ChannelReply (fst (broker w 0)) (snd (broker w 0))]"
      by (simp add: created_def)
    obtain err ch where b: "broker w 0 = (err, ch)" by (cases "broker w 0")
    show ?thesis
    proof (cases err)
      case e: (Some x)
      with assms None Some b
      have "r = Inl (Error (''Error creating channel: '' @ toString x))" "w1 = ?w"
        by (simp_all add: process_entry_create)
      then show ?thesis using k t
        by (auto simp add: assertions_def List.map_filter_def)
    next
      case ok: None
      show ?thesis
      proof (cases ch)
        case nc: None
        with assms None Some b ok
        have "r = Inl (undefined_property (method_name e))" "w1 = ?w"
          by (simp_all add: process_entry_create)
        then show ?thesis using k t
          by (auto simp add: assertions_def List.map_filter_def)
      next
        case (Some c')
        with assms None \<open>rabbitConn w = Some c\<close> b ok
        have r: "r = Inr ()" and w1: "w1 = issue (request_on c' e) (handler_of e) ?w"
          by (simp_all add: process_entry_create)
        have g: "channels_get w1 (entry_channel e) = Some c'"
          using b Some by (simp add: w1 issue_def created_def channels_get_def)
        have "keeps ?w w1" unfolding w1 by (rule keeps_issue)
        with k have "keeps w w1" by (rule keeps_trans)
        moreover have "trace w1 = trace w @ [Call (CreateConfirmChannel c),
                ChannelReply (fst (broker w 0)) (snd (broker w 0)), Call (request_on c' e)]"
          by (simp add: w1 issue_def t)
        ultimately show ?thesis using r g
          by (auto simp add: assertions_def List.map_filter_def)
      qed
    qed
  qed
qed

text \<open>
  The loop: the entries split into those asserted and those never reached; a
  rejection leaves at least the rejected entry unasserted.
\<close>

lemma asyncForEach_segments:
  assumes "asyncForEach xs process_entry w = (r, w')"
  shows "\<exists>asserted skipped new. xs = asserted @ skipped \<and> trace w' = trace w @ new \<and>
           one_at_a_time False new = Some False \<and> keeps w w' \<and>
           map Some (assertions new) = map (expected w') asserted \<and>
           (case r of
              Inr u \<Rightarrow> skipped = []
            | Inl x \<Rightarrow> \<exists>f rest. skipped = f # rest \<and>
                ((\<exists>err. x = Error (''Error creating channel: '' @ toString err)) \<or>
                 x = undefined_property (method_name f)))"
  using assms
proof (induction xs arbitrary: w)
  case Nil
  then have "r = Inr ()" "w' = w" by simp_all
  then show ?case by (simp add: keeps_refl assertions_def List.map_filter_def)
next
  case (Cons e xs)
  obtain r1 w1 where p: "process_entry e w = (r1, w1)" by (cases "process_entry e w")
  from process_entry_step [OF p] obtain new1 where
    t1: "trace w1 = trace w @ new1" and o1: "one_at_a_time False new1 = Some False" and
    k1: "keeps w w1" and
    c1: "case r1 of
           Inr u \<Rightarrow>
             \<exists>ch. channels_get w1 (entry_channel e) = Some ch \<and>
                  assertions new1 = [request_on ch e]
         | Inl x \<Rightarrow>
             assertions new1 = [] \<and>
             ((\<exists>err. x = Error (''Error creating channel: '' @ toString err)) \<or>
              x = undefined_property (method_name e))"
    by blast
  show ?case
  proof (cases r1)
    case (Inl x)
    with Cons.prems p have "r = Inl x" "w' = w1" by simp_all
    with t1 o1 k1 c1 Inl show ?thesis
      by (rule_tac x = "[]" in exI, rule_tac x = "e # xs" in exI, rule_tac x = new1 in exI)
        simp
  next
    case (Inr u)
    with Cons.prems p have l: "asyncForEach xs process_entry w1 = (r, w')" by simp
    from Cons.IH [OF l] obtain asserted skipped new2 where
      s: "xs = asserted @ skipped" and t2: "trace w' = trace w1 @ new2" and
      o2: "one_at_a_time False new2 = Some False" and k2: "keeps w1 w'" and
      a2: "map Some (assertions new2) = map (expected w') asserted" and
      c2: "case r of
             Inr u \<Rightarrow> skipped = []
           | Inl x \<Rightarrow> \<exists>f rest. skipped = f # rest \<and>
               ((\<exists>err. x = Error (''Error creating channel: '' @ toString err)) \<or>
                x = undefined_property (method_name f))"
      by blast
    from c1 Inr obtain ch where g: "channels_get w1 (entry_channel e) = Some ch"
      and a1: "assertions new1 = [request_on ch e]" by auto
    from k2 g have "expected w' e = Some (request_on ch e)" by (rule expected_keeps)
    with a1 a2 have "map Some (assertions (new1 @ new2)) = map (expected w') (e # asserted)"
      by (simp add: assertions_append)
    moreover have "one_at_a_time False (new1 @ new2) = Some False"
      using o1 o2 by (simp add: one_at_a_time_append)
    moreover have "trace w' = trace w @ (new1 @ new2)" using t1 t2 by simp
    moreover have "keeps w w'" using k1 k2 by (rule keeps_trans)
    moreover have "e # xs = (e # asserted) @ skipped" using s by simp
    ultimately show ?thesis using c2 by blast
  qed
qed

section \<open>What a run of the loop leaves behind\<close>

text \<open>
  When an entry is rejected, and when it cannot be; which reply handlers are waiting
  after a run; and the run as a whole, with the entry that stopped it.
\<close>

lemma entries_first_entries: "entries (first_entries n opts) = take n (entries opts)"
  by (simp add: first_entries_def entries_def Let_def take_map)

lemma asyncForEach_rejected:
  "asyncForEach xs callback w = (Inl x, w') \<Longrightarrow>
   \<exists>b f rest w1. xs = b @ f # rest \<and> asyncForEach b callback w = (Inr (), w1) \<and>
                  callback f w1 = (Inl x, w')"
proof (induction xs arbitrary: w)
  case Nil
  then show ?case by simp
next
  case (Cons e xs)
  obtain r1 w1 where p: "callback e w = (r1, w1)" by (cases "callback e w")
  show ?case
  proof (cases r1)
    case (Inl y)
    with Cons.prems p have "callback e w = (Inl x, w')" by simp
    then show ?thesis
      by (rule_tac x = "[]" in exI, rule_tac x = e in exI, rule_tac x = xs in exI,
          rule_tac x = w in exI) simp
  next
    case (Inr u)
    with Cons.prems p have "asyncForEach xs callback w1 = (Inl x, w')" by simp
    from Cons.IH [OF this] obtain b f rest w2 where
      "xs = b @ f # rest" "asyncForEach b callback w1 = (Inr (), w2)" "callback f w2 = (Inl x, w')"
      by blast
    with p Inr show ?thesis
      by (rule_tac x = "e # b" in exI, rule_tac x = f in exI, rule_tac x = rest in exI,
          rule_tac x = w2 in exI) simp
  qed
qed

lemma process_entry_rejected:
  assumes "process_entry f w = (Inl x, w')"
  shows "channels_get w (entry_channel f) = None \<and>
         (case rabbitConn w of
            None \<Rightarrow>
              x = Error (''Error creating channel: ''
                         @ toString (undefined_property ''createConfirmChannel'')) \<and> w' = w
          | Some c \<Rightarrow>
              w' = created (entry_channel f) c w \<and>
              (case broker w 0 of
                 (Some e, ch) \<Rightarrow> x = Error (''Error creating channel: '' @ toString e)
               | (None, None) \<Rightarrow> x = undefined_property (method_name f)
               | (None, Some ch) \<Rightarrow> False))"
proof (cases "channels_get w (entry_channel f)")
  case (Some ch)
  with assms show ?thesis by (simp add: process_entry_found)
next
  case None
  show ?thesis
  proof (cases "rabbitConn w")
    case no: None
    with None assms show ?thesis by (simp add: process_entry_no_conn)
  next
    case (Some c)
    with None assms show ?thesis
      by (auto simp add: process_entry_create split: prod.splits option.splits)
  qed
qed

lemma process_entry_resolves:
  assumes "channels_get w (entry_channel e) \<noteq> None \<or>
           (rabbitConn w \<noteq> None \<and> granted (broker w 0))"
  shows "fst (process_entry e w) = Inr ()"
proof (cases "channels_get w (entry_channel e)")
  case (Some ch)
  then show ?thesis by (simp add: process_entry_found)
next
  case None
  with assms obtain c ch where "rabbitConn w = Some c" "broker w 0 = (None, Some ch)"
    by (cases "broker w 0") (auto simp add: granted_def)
  with None show ?thesis by (simp add: process_entry_create)
qed

lemma process_entry_environment:
  assumes "process_entry e w = (r, w1)"
  shows "rabbitConn w1 = rabbitConn w \<and>
         (broker w1 = broker w \<or> broker w1 = (\<lambda>n. broker w (Suc n)))"
proof (cases "channels_get w (entry_channel e)")
  case (Some ch)
  with assms show ?thesis by (auto simp add: process_entry_found issue_def)
next
  case None
  show ?thesis
  proof (cases "rabbitConn w")
    case no: None
    with None assms show ?thesis by (auto simp add: process_entry_no_conn)
  next
    case (Some c)
    with None assms show ?thesis
      by (auto simp add: process_entry_create created_def issue_def
          split: prod.splits option.splits)
  qed
qed

lemma in_flight_for_later:
  assumes "in_flight_for w1 p e" and "trace w' = trace w1 @ later" and "keeps w1 w'"
  shows "in_flight_for w' p e"
proof -
  from assms(1) obtain q where q: "expected w1 e = Some q" and
    i: "fst p < length (trace w1)" and a: "assertion_of (trace w1 ! fst p) = Some q" and
    h: "snd p = handler_of e"
    by (auto simp add: in_flight_for_def)
  from q obtain ch where "channels_get w1 (entry_channel e) = Some ch" "q = request_on ch e"
    by (auto simp add: expected_def)
  with assms(3) have "expected w' e = Some q" by (simp add: expected_keeps)
  with i a h assms(2) show ?thesis by (simp add: in_flight_for_def nth_append)
qed

lemma process_entry_pending:
  assumes "process_entry e w = (r, w1)"
  shows "case r of
           Inl x \<Rightarrow> pending w1 = pending w
         | Inr u \<Rightarrow> \<exists>p. pending w1 = pending w @ [p] \<and> in_flight_for w1 p e"
proof (cases "channels_get w (entry_channel e)")
  case (Some ch)
  with assms have "r = Inr ()" "w1 = issue (request_on ch e) (handler_of e) w"
    by (simp_all add: process_entry_found)
  with Some show ?thesis
    by (simp add: issue_def in_flight_for_def expected_def channels_get_def)
next
  case None
  show ?thesis
  proof (cases "rabbitConn w")
    case no: None
    with None assms show ?thesis by (auto simp add: process_entry_no_conn)
  next
    case (Some c)
    obtain err ch where b: "broker w 0 = (err, ch)" by (cases "broker w 0")
    show ?thesis
    proof (cases "err = None \<and> ch \<noteq> None")
      case False
      with None Some assms b show ?thesis
        by (auto simp add: process_entry_create created_def split: option.splits)
    next
      case True
      then obtain c' where "err = None" "ch = Some c'" by auto
      with None Some assms b
      have "r = Inr ()"
        "w1 = issue (request_on c' e) (handler_of e) (created (entry_channel e) c w)"
        by (simp_all add: process_entry_create)
      with b \<open>ch = Some c'\<close> show ?thesis
        by (simp add: issue_def created_def in_flight_for_def expected_def channels_get_def
            nth_append)
    qed
  qed
qed

lemma asyncForEach_run:
  assumes "asyncForEach xs process_entry w = (r, w')"
  shows "\<exists>asserted skipped new ps.
           xs = asserted @ skipped \<and> trace w' = trace w @ new \<and> keeps w w' \<and>
           map Some (assertions new) = map (expected w') asserted \<and>
           pending w' = pending w @ ps \<and> list_all2 (in_flight_for w') ps asserted \<and>
           (case r of
              Inr u \<Rightarrow> skipped = []
            | Inl x \<Rightarrow>
                \<exists>f rest w1. skipped = f # rest \<and>
                  asyncForEach asserted process_entry w = (Inr (), w1) \<and>
                  process_entry f w1 = (Inl x, w'))"
  using assms
proof (induction xs arbitrary: w)
  case Nil
  then have "r = Inr ()" "w' = w" by simp_all
  then show ?case by (simp add: keeps_refl assertions_def List.map_filter_def)
next
  case (Cons e xs)
  obtain r1 w1 where p: "process_entry e w = (r1, w1)" by (cases "process_entry e w")
  from process_entry_step [OF p] obtain new1 where
    t1: "trace w1 = trace w @ new1" and k1: "keeps w w1" and
    c1: "case r1 of
           Inr u \<Rightarrow>
             \<exists>ch. channels_get w1 (entry_channel e) = Some ch \<and>
                  assertions new1 = [request_on ch e]
         | Inl x \<Rightarrow>
             assertions new1 = [] \<and>
             ((\<exists>err. x = Error (''Error creating channel: '' @ toString err)) \<or>
              x = undefined_property (method_name e))"
    by blast
  note q1 = process_entry_pending [OF p]
  show ?case
  proof (cases r1)
    case (Inl x)
    with Cons.prems p have r: "r = Inl x" and w': "w' = w1" by simp_all
    from q1 Inl have "pending w1 = pending w" by simp
    with t1 k1 c1 Inl r w' p show ?thesis
      by (rule_tac x = "[]" in exI, rule_tac x = "e # xs" in exI, rule_tac x = new1 in exI,
          rule_tac x = "[]" in exI) simp
  next
    case (Inr u)
    with Cons.prems p have l: "asyncForEach xs process_entry w1 = (r, w')" by simp
    from Cons.IH [OF l] obtain asserted skipped new2 ps where
      s: "xs = asserted @ skipped" and t2: "trace w' = trace w1 @ new2" and
      k2: "keeps w1 w'" and
      a2: "map Some (assertions new2) = map (expected w') asserted" and
      p2: "pending w' = pending w1 @ ps" and f2: "list_all2 (in_flight_for w') ps asserted" and
      c2: "case r of
             Inr u \<Rightarrow> skipped = []
           | Inl x \<Rightarrow>
               \<exists>f rest w2. skipped = f # rest \<and>
                 asyncForEach asserted process_entry w1 = (Inr (), w2) \<and>
                 process_entry f w2 = (Inl x, w')"
      by blast
    from c1 Inr obtain ch where g: "channels_get w1 (entry_channel e) = Some ch"
      and a1: "assertions new1 = [request_on ch e]" by auto
    from q1 Inr obtain p1 where p1: "pending w1 = pending w @ [p1]" "in_flight_for w1 p1 e"
      by auto
    from p1(2) t2 k2 have "in_flight_for w' p1 e" by (rule in_flight_for_later)
    with f2 have f: "list_all2 (in_flight_for w') (p1 # ps) (e # asserted)" by simp
    from k2 g have "expected w' e = Some (request_on ch e)" by (rule expected_keeps)
    with a1 a2 have a: "map Some (assertions (new1 @ new2)) = map (expected w') (e # asserted)"
      by (simp add: assertions_append)
    have t: "trace w' = trace w @ (new1 @ new2)" using t1 t2 by simp
    have k: "keeps w w'" using k1 k2 by (rule keeps_trans)
    have x: "e # xs = (e # asserted) @ skipped" using s by simp
    have pp: "pending w' = pending w @ (p1 # ps)" using p1(1) p2 by simp
    have c: "case r of
             Inr u \<Rightarrow> skipped = []
           | Inl x \<Rightarrow>
               \<exists>f rest w2. skipped = f # rest \<and>
                 asyncForEach (e # asserted) process_entry w = (Inr (), w2) \<and>
                 process_entry f w2 = (Inl x, w')"
      using c2 p Inr by (cases r) auto
    from x t k a pp f c show ?thesis by blast
  qed
qed

lemma asyncForEach_granted:
  assumes "rabbitConn w \<noteq> None" and "\<forall>n. granted (broker w n)"
  shows "fst (asyncForEach xs process_entry w) = Inr ()"
  using assms
proof (induction xs arbitrary: w)
  case Nil
  then show ?case by simp
next
  case (Cons e xs)
  obtain r1 w1 where p: "process_entry e w = (r1, w1)" by (cases "process_entry e w")
  from Cons.prems have "fst (process_entry e w) = Inr ()"
    by (intro process_entry_resolves) simp
  with p have r1: "r1 = Inr ()" by simp
  from process_entry_environment [OF p] Cons.prems
  have "rabbitConn w1 \<noteq> None" "\<forall>n. granted (broker w1 n)" by auto
  then have "fst (asyncForEach xs process_entry w1) = Inr ()" by (rule Cons.IH)
  with p r1 show ?case by simp
qed

lemma asyncForEach_registered:
  assumes "\<forall>e\<in>set xs. channels_get w (entry_channel e) \<noteq> None"
  shows "fst (asyncForEach xs process_entry w) = Inr ()"
  using assms
proof (induction xs arbitrary: w)
  case Nil
  then show ?case by simp
next
  case (Cons e xs)
  obtain r1 w1 where p: "process_entry e w = (r1, w1)" by (cases "process_entry e w")
  from Cons.prems have "fst (process_entry e w) = Inr ()"
    by (intro process_entry_resolves) simp
  with p have r1: "r1 = Inr ()" by simp
  from process_entry_step [OF p] have "keeps w w1" by blast
  with Cons.prems have "\<forall>e\<in>set xs. channels_get w1 (entry_channel e) \<noteq> None"
    by (auto simp add: keeps_def)
  then have "fst (asyncForEach xs process_entry w1) = Inr ()" by (rule Cons.IH)
  with p r1 show ?case by simp
qed

lemma expected_registered:
  assumes "map Some rs = map (expected w) es" and "e \<in> set es"
  shows "channels_get w (entry_channel e) \<noteq> None"
proof -
  from assms(2) have "expected w e \<in> set (map (expected w) es)" by simp
  with assms(1) have "expected w e \<in> set (map Some rs)" by simp
  then have "expected w e \<noteq> None" by auto
  then show ?thesis by (simp add: expected_def)
qed

lemma process_entry_keys:
  assumes "process_entry e w = (r, w1)"
  shows "length (trace w) \<le> length (trace w1) \<and>
         (\<exists>ps. pending w1 = pending w @ ps \<and> distinct (map fst ps) \<and>
               (\<forall>p\<in>set ps. length (trace w) \<le> fst p \<and> fst p < length (trace w1)))"
proof (cases "channels_get w (entry_channel e)")
  case (Some ch)
  with assms show ?thesis by (auto simp add: process_entry_found issue_def)
next
  case None
  show ?thesis
  proof (cases "rabbitConn w")
    case no: None
    with None assms show ?thesis by (auto simp add: process_entry_no_conn)
  next
    case (Some c)
    with None assms show ?thesis
      by (auto simp add: process_entry_create created_def issue_def
          split: prod.splits option.splits)
  qed
qed

lemma asyncForEach_keys:
  assumes "asyncForEach xs process_entry w = (r, w')"
  shows "length (trace w) \<le> length (trace w') \<and>
         (\<exists>ps. pending w' = pending w @ ps \<and> distinct (map fst ps) \<and>
               (\<forall>p\<in>set ps. length (trace w) \<le> fst p \<and> fst p < length (trace w')))"
  using assms
proof (induction xs arbitrary: w)
  case Nil
  then show ?case by simp
next
  case (Cons e xs)
  obtain r1 w1 where p: "process_entry e w = (r1, w1)" by (cases "process_entry e w")
  from process_entry_keys [OF p] obtain ps1 where
    l1: "length (trace w) \<le> length (trace w1)" and p1: "pending w1 = pending w @ ps1" and
    d1: "distinct (map fst ps1)" and
    k1: "\<forall>p\<in>set ps1. length (trace w) \<le> fst p \<and> fst p < length (trace w1)"
    by blast
  show ?case
  proof (cases r1)
    case (Inl x)
    with Cons.prems p have "w' = w1" by simp
    with l1 p1 d1 k1 show ?thesis by blast
  next
    case (Inr u)
    with Cons.prems p have "asyncForEach xs process_entry w1 = (r, w')" by simp
    from Cons.IH [OF this] obtain ps2 where
      l2: "length (trace w1) \<le> length (trace w')" and p2: "pending w' = pending w1 @ ps2" and
      d2: "distinct (map fst ps2)" and
      k2: "\<forall>p\<in>set ps2. length (trace w1) \<le> fst p \<and> fst p < length (trace w')"
      by blast
    have "pending w' = pending w @ (ps1 @ ps2)" using p1 p2 by simp
    moreover have "distinct (map fst (ps1 @ ps2))" using d1 d2 k1 k2 by fastforce
    moreover have "\<forall>p\<in>set (ps1 @ ps2). length (trace w) \<le> fst p \<and> fst p < length (trace w')"
      using k1 k2 l1 l2 by fastforce
    moreover have "length (trace w) \<le> length (trace w')" using l1 l2 by simp
    ultimately show ?thesis by blast
  qed
qed

lemma pending_lookup:
  assumes "\<forall>q\<in>set old. fst q < (n::nat)" and "distinct (map fst ps)"
    and "\<forall>p\<in>set ps. n \<le> fst p"
    and "p \<in> set ps"
  shows "map_of (old @ ps) (fst p) = Some (snd p)"
proof -
  have "fst p \<notin> fst ` set old"
  proof
    assume "fst p \<in> fst ` set old"
    then obtain q where "q \<in> set old" "fst q = fst p" by auto
    with assms(1) have "fst p < n" by auto
    moreover from assms(3,4) have "n \<le> fst p" by simp
    ultimately show False by simp
  qed
  then have "map_of old (fst p) = None" by (simp add: map_of_eq_None_iff)
  moreover from assms(2,4) have "map_of ps (fst p) = Some (snd p)" by simp
  ultimately show ?thesis by (simp add: map_add_def)
qed

section \<open>The order of the assertions\<close>

text \<open>The definitions a run of the topology on a given world unfolds.\<close>

lemmas run_defs =
  setupTopology_def setupExchanges_def setupQueues_def setupBindings_def assertExchange_def
  assertQueue_def bindQueue_def getChannel_def getChannel_begin_def getChannel_resume_def
  getChannel_settled_def createConfirmChannel_cb_def next_reply_def channels_get_def
  setChannel_def invoke_def emit_def issue_def

lemma topology1_run:
  "fst (setupTopology topology1 fresh_world) = Inr ()"
  "trace (snd (setupTopology topology1 fresh_world)) =
     [Call (CreateConfirmChannel 1), ChannelReply None (Some 100),
      Call (AssertExchange 100 ''logs'' ''fanout'' None),
      Call (CreateConfirmChannel 1), ChannelReply None (Some 101),
      Call (AssertQueue 101 ''q1'' None), Call (AssertQueue 101 ''q2'' None),
      Call (BindQueue 101 ''q1'' ''logs'' ''k'' None)]"
  by (simp_all add: topology1_def fresh_world_def broker_ok_def run_defs)

lemma topology1_registry:
  "channels_get (snd (setupTopology topology1 fresh_world)) ''pub'' = Some 100"
  "channels_get (snd (setupTopology topology1 fresh_world)) ''sub'' = Some 101"
  by (simp_all add: topology1_def fresh_world_def broker_ok_def run_defs)

lemma topology1_entries:
  "entries topology1 =
     [ExchangeEntry \<lparr>ex_channel = ''pub'', ex_name = ''logs'', ex_type = ''fanout'',
                      ex_options = None\<rparr>,
      QueueEntry \<lparr>q_channel = ''sub'', q_name = ''q1'', q_options = None\<rparr>,
      QueueEntry \<lparr>q_channel = ''sub'', q_name = ''q2'', q_options = None\<rparr>,
      BindingEntry \<lparr>b_channel = ''sub'', b_queue = ''q1'', b_exchange = ''logs'',
                     b_key = ''k'', b_options = None\<rparr>]"
  by (simp add: entries_def topology1_def)

text \<open>
  Claim C1.  Whatever the configuration and the state of the client, the assertions
  \<^verbatim>\<open>setupTopology\<close> invokes are, in this order, those of an initial segment of the
  configuration's entries read as exchanges, then queues, then bindings, each list in
  its given order, and each assertion goes to the channel registered under the entry's
  channel name.  When \<^verbatim>\<open>setupTopology\<close> resolves, the segment is all the entries; when it
  is rejected, the first entry left out is one for whose channel name no channel was
  registered at the start, and no asserted entry has that channel name.  It resolves
  whenever a channel is registered already for every entry, and whenever the client is
  connected and the library grants every channel creation.
\<close>

theorem setupTopology_order:
  assumes "setupTopology opts w = (r, w')"
  shows "(\<exists>asserted skipped.
            entries opts = asserted @ skipped \<and>
            trace w' = trace w @ since w w' \<and>
            map Some (assertions (since w w')) = map (expected w') asserted \<and>
            (r = Inr () \<longrightarrow> skipped = []) \<and>
            (\<forall>x. r = Inl x \<longrightarrow>
               skipped \<noteq> [] \<and> channels_get w (entry_channel (hd skipped)) = None \<and>
               entry_channel (hd skipped) \<notin> entry_channel ` set asserted)) \<and>
         ((\<forall>e\<in>set (entries opts). channels_get w (entry_channel e) \<noteq> None) \<longrightarrow> r = Inr ()) \<and>
         (rabbitConn w \<noteq> None \<and> (\<forall>n. granted (broker w n)) \<longrightarrow> r = Inr ())"
proof -
  from assms have run: "asyncForEach (entries opts) process_entry w = (r, w')"
    by (simp add: setupTopology_loop)
  from asyncForEach_run [OF run] obtain asserted skipped new where
    e: "entries opts = asserted @ skipped" and t: "trace w' = trace w @ new" and
    a: "map Some (assertions new) = map (expected w') asserted" and
    c: "case r of
          Inr u \<Rightarrow> skipped = []
        | Inl x \<Rightarrow>
            \<exists>f rest w1. skipped = f # rest \<and>
              asyncForEach asserted process_entry w = (Inr (), w1) \<and>
              process_entry f w1 = (Inl x, w')"
    by blast
  from t have n: "since w w' = new" by (simp add: since_def)
  have stop: "skipped \<noteq> [] \<and> channels_get w (entry_channel (hd skipped)) = None \<and>
              entry_channel (hd skipped) \<notin> entry_channel ` set asserted"
    if "r = Inl x" for x
  proof -
    from c that obtain f rest w1 where s: "skipped = f # rest" and
      b: "asyncForEach asserted process_entry w = (Inr (), w1)" and
      f: "process_entry f w1 = (Inl x, w')"
      by auto
    from process_entry_rejected [OF f] have g: "channels_get w1 (entry_channel f) = None"
      by simp
    from asyncForEach_run [OF b] obtain new1 where k: "keeps w w1" and
      a1: "map Some (assertions new1) = map (expected w1) asserted"
      by auto
    from k g have "channels_get w (entry_channel f) = None"
      by (cases "channels_get w (entry_channel f)") (auto simp add: keeps_def)
    moreover have "entry_channel f \<notin> entry_channel ` set asserted"
    proof
      assume "entry_channel f \<in> entry_channel ` set asserted"
      then obtain e where m: "e \<in> set asserted" and "entry_channel e = entry_channel f"
        by auto
      with expected_registered [OF a1 m] g show False by simp
    qed
    ultimately show ?thesis using s by simp
  qed
  have "\<exists>asserted skipped.
            entries opts = asserted @ skipped \<and>
            trace w' = trace w @ since w w' \<and>
            map Some (assertions (since w w')) = map (expected w') asserted \<and>
            (r = Inr () \<longrightarrow> skipped = []) \<and>
            (\<forall>x. r = Inl x \<longrightarrow>
               skipped \<noteq> [] \<and> channels_get w (entry_channel (hd skipped)) = None \<and>
               entry_channel (hd skipped) \<notin> entry_channel ` set asserted)"
    using e t a c n stop
    by (rule_tac x = asserted in exI, rule_tac x = skipped in exI) auto
  moreover have "r = Inr ()" if "\<forall>e\<in>set (entries opts). channels_get w (entry_channel e) \<noteq> None"
    using asyncForEach_registered [OF that] run by simp
  moreover have "r = Inr ()" if "rabbitConn w \<noteq> None \<and> (\<forall>n. granted (broker w n))"
    using asyncForEach_granted [of w "entries opts"] that run by simp
  ultimately show ?thesis by blast
qed

theorem setupTopology_order_witness:
  "fst (setupTopology topology1 fresh_world) = Inr () \<and>
   assertions (since fresh_world (snd (setupTopology topology1 fresh_world))) =
     [AssertExchange 100 ''logs'' ''fanout'' None, AssertQueue 101 ''q1'' None,
      AssertQueue 101 ''q2'' None, BindQueue 101 ''q1'' ''logs'' ''k'' None] \<and>
   fst (setupTopology topology1 (snd (setupTopology topology1 fresh_world))) = Inr () \<and>
   (\<exists>asserted skipped.
      entries topology1 = asserted @ skipped \<and> skipped \<noteq> [] \<and>
      map Some (assertions (since full_world (snd (setupTopology topology1 full_world)))) =
        map (expected (snd (setupTopology topology1 full_world))) asserted \<and>
      channels_get full_world (entry_channel (hd skipped)) = None \<and>
      entry_channel (hd skipped) \<notin> entry_channel ` set asserted)"
proof -
  let ?w = "snd (setupTopology topology1 fresh_world)"
  note fresh = setupTopology_order [OF surjective_pairing, of topology1 fresh_world]
  note again = setupTopology_order [OF surjective_pairing, of topology1 ?w]
  note full = setupTopology_order [OF surjective_pairing, of topology1 full_world]
  have "rabbitConn fresh_world \<noteq> None \<and> (\<forall>n. granted (broker fresh_world n))"
    by (simp add: fresh_world_def broker_ok_def granted_def)
  with fresh have r: "fst (setupTopology topology1 fresh_world) = Inr ()" by blast
  with fresh obtain asserted where
    "asserted = entries topology1"
    "map Some (assertions (since fresh_world ?w)) = map (expected ?w) asserted"
    by auto
  then have "map Some (assertions (since fresh_world ?w)) =
               map Some [AssertExchange 100 ''logs'' ''fanout'' None, AssertQueue 101 ''q1'' None,
                         AssertQueue 101 ''q2'' None, BindQueue 101 ''q1'' ''logs'' ''k'' None]"
    by (simp add: topology1_entries expected_def topology1_registry)
  then have a: "assertions (since fresh_world ?w) =
               [AssertExchange 100 ''logs'' ''fanout'' None, AssertQueue 101 ''q1'' None,
                AssertQueue 101 ''q2'' None, BindQueue 101 ''q1'' ''logs'' ''k'' None]"
    by (simp only: inj_map_eq_map [OF inj_Some])
  have "\<forall>e\<in>set (entries topology1). channels_get ?w (entry_channel e) \<noteq> None"
    by (simp add: topology1_entries topology1_registry)
  with again have g: "fst (setupTopology topology1 ?w) = Inr ()" by blast
  have "fst (setupTopology topology1 full_world) =
          Inl (Error ''Error creating channel: Error: CHANNEL_MAX'')"
    by (simp add: topology1_def full_world_def broker_full_def run_defs toString_def)
  with full have "\<exists>asserted skipped.
      entries topology1 = asserted @ skipped \<and> skipped \<noteq> [] \<and>
      map Some (assertions (since full_world (snd (setupTopology topology1 full_world)))) =
        map (expected (snd (setupTopology topology1 full_world))) asserted \<and>
      channels_get full_world (entry_channel (hd skipped)) = None \<and>
      entry_channel (hd skipped) \<notin> entry_channel ` set asserted"
    by blast
  with r a g show ?thesis by (intro conjI)
qed


section \<open>Failures during topology application\<close>

lemma run_handler_assertions: "assertions (fst (run_handler h err)) = []"
  by (cases h)
    (simp_all add: assertExchange_cb_def assertQueue_cb_def bindQueue_cb_def assertions_def
      List.map_filter_def split: option.splits)

lemma assertions_skip:
  "assertions [] = []"
  "assertions (Reply i err # es) = assertions es"
  "assertions (Uncaught e # es) = assertions es"
  by (simp_all add: assertions_def List.map_filter_def)

lemma deliver_channels: "channels (deliver i err w) = channels w"
  by (simp add: deliver_def split: option.splits prod.splits)

lemma deliver_assertions: "assertions (trace (deliver i err w)) = assertions (trace w)"
proof (cases "map_of (pending w) i")
  case None
  then show ?thesis by (simp add: deliver_def)
next
  case (Some h)
  obtain es thrown where r: "run_handler h err = (es, thrown)" by (cases "run_handler h err")
  with run_handler_assertions [of h err] have "assertions es = []" by simp
  with Some r show ?thesis
    by (simp add: deliver_def assertions_append assertions_skip split: option.splits)
qed

text \<open>
  Claim C2, as stated, fails.  Three queues on one channel, and the library answers
  the assertion of the second (position 3 of the trace) with an error:
  \<^verbatim>\<open>setupTopology\<close> has resolved, the assertion of the third queue has been invoked, and
  the error surfaces as an exception out of the reply handler whose message names the
  operation and neither the queue nor the channel.  The channel exists once the first
  queue has been handled, so between the second assertion and the third the client
  awaits nothing from the broker, and no reply can be delivered earlier than here.
\<close>

theorem failed_assertion_does_not_abort:
  "fst (setupTopology queues3 fresh_world) = Inr () \<and>
   trace (deliver 3 (Some (Error ''NOT_FOUND'')) (snd (setupTopology queues3 fresh_world))) =
     [Call (CreateConfirmChannel 1), ChannelReply None (Some 100),
      Call (AssertQueue 100 ''q1'' None), Call (AssertQueue 100 ''q2'' None),
      Call (AssertQueue 100 ''q3'' None),
      Reply 3 (Some (Error ''NOT_FOUND'')),
      Uncaught (Error ''Error in ZeroRabbit.assertQueue(): Error: NOT_FOUND'')]"
  by (simp add: queues3_def fresh_world_def broker_ok_def run_defs deliver_def assertQueue_cb_def
      toString_def)

lemma run_handler_failure:
  "run_handler (handler_of f) (Some e) = ([], Some (Error (failure_text f @ toString e)))"
  by (cases f) (simp_all add: assertExchange_cb_def assertQueue_cb_def bindQueue_cb_def)

lemma deliver_failure:
  assumes "in_flight_for v p f" and "map_of (pending v) (fst p) = Some (snd p)"
  shows "trace (deliver (fst p) (Some e) v) =
           trace v @ [Reply (fst p) (Some e), Uncaught (Error (failure_text f @ toString e))]"
  using assms by (simp add: deliver_def in_flight_for_def run_handler_failure)

lemma created_assertions: "assertions (trace (created n c w)) = assertions (trace w)"
  by (simp add: created_def assertions_def List.map_filter_def)

lemma setupTopology_split:
  assumes "entries opts = entries before @ f # rest"
    and "setupTopology before w = (Inr (), w1)"
  shows "setupTopology opts w =
           (case process_entry f w1 of
              (Inl x, w2) \<Rightarrow> (Inl x, w2)
            | (Inr u, w2) \<Rightarrow> asyncForEach rest process_entry w2)"
  using assms by (simp add: setupTopology_loop asyncForEach_append)

text \<open>
  Claim C2, amended.  \<^verbatim>\<open>setupTopology\<close> is rejected when, and only when, it comes to an
  entry whose channel cannot be resolved.  When: let the entries before \<open>f\<close> have been
  handled, leaving the client in \<open>w1\<close> with no channel registered for \<open>f\<close>.  Without a
  connection, \<^verbatim>\<open>setupTopology\<close> is rejected with \<^verbatim>\<open>'Error creating channel: '\<close> followed by the
  \<open>TypeError\<close> of reading \<^verbatim>\<open>createConfirmChannel\<close> of \<^verbatim>\<open>undefined\<close>, and nothing is invoked; when
  the library answers the creation with an error, it is rejected with
  \<^verbatim>\<open>'Error creating channel: '\<close> followed by that error; when the library answers with neither
  an error nor a channel, it is rejected with the \<open>TypeError\<close> of calling the assertion on
  \<^verbatim>\<open>undefined\<close>.  In each case the client is left as the creation left it: neither \<open>f\<close> nor any
  later entry is asserted.  Only when: every rejection is one of these.  A failure the
  library reports for an assertion does not reject \<^verbatim>\<open>setupTopology\<close>: for each asserted entry
  the handler of the operation, installed without callback, is waiting for the reply (and
  is the one a reply to that request finds, when the handlers that were waiting before
  are for requests on the trace), and an error \<open>e\<close> in that reply is thrown by the handler
  as an error whose message is the text of the operation followed by the text of \<open>e\<close>; the
  reply changes neither the registry nor the assertions invoked.
\<close>

theorem setupTopology_abort:
  assumes "setupTopology opts w = (r, w')"
  shows "(\<forall>before f rest w1.
            entries opts = entries before @ f # rest \<and>
            setupTopology before w = (Inr (), w1) \<and>
            channels_get w1 (entry_channel f) = None \<longrightarrow>
              (rabbitConn w1 = None \<longrightarrow>
                 r = Inl (Error (''Error creating channel: ''
                                 @ toString (undefined_property ''createConfirmChannel''))) \<and>
                 w' = w1) \<and>
              (\<forall>c e ch. rabbitConn w1 = Some c \<and> broker w1 0 = (Some e, ch) \<longrightarrow>
                 r = Inl (Error (''Error creating channel: '' @ toString e)) \<and>
                 w' = created (entry_channel f) c w1) \<and>
              (\<forall>c. rabbitConn w1 = Some c \<and> broker w1 0 = (None, None) \<longrightarrow>
                 r = Inl (undefined_property (method_name f)) \<and>
                 w' = created (entry_channel f) c w1)) \<and>
         (\<forall>x. r = Inl x \<longrightarrow>
            (\<exists>before f rest w1.
               entries opts = entries before @ f # rest \<and>
               setupTopology before w = (Inr (), w1) \<and>
               channels_get w1 (entry_channel f) = None \<and>
               (rabbitConn w1 = None \<or> \<not> granted (broker w1 0)) \<and>
               assertions (trace w') = assertions (trace w1))) \<and>
         (\<exists>asserted skipped ps.
            entries opts = asserted @ skipped \<and>
            map Some (assertions (since w w')) = map (expected w') asserted \<and>
            pending w' = pending w @ ps \<and> list_all2 (in_flight_for w') ps asserted \<and>
            ((\<forall>q\<in>set (pending w). fst q < length (trace w)) \<longrightarrow>
               (\<forall>p\<in>set ps. map_of (pending w') (fst p) = Some (snd p)))) \<and>
         (\<forall>v p f e.
            in_flight_for v p f \<and> map_of (pending v) (fst p) = Some (snd p) \<longrightarrow>
              trace (deliver (fst p) (Some e) v) =
                trace v @ [Reply (fst p) (Some e),
                           Uncaught (Error (failure_text f @ toString e))] \<and>
              channels (deliver (fst p) (Some e) v) = channels v \<and>
              assertions (trace (deliver (fst p) (Some e) v)) = assertions (trace v))"
proof -
  from assms have run: "asyncForEach (entries opts) process_entry w = (r, w')"
    by (simp add: setupTopology_loop)
  have "when": "(rabbitConn w1 = None \<longrightarrow>
                 r = Inl (Error (''Error creating channel: ''
                                 @ toString (undefined_property ''createConfirmChannel''))) \<and>
                 w' = w1) \<and>
              (\<forall>c e ch. rabbitConn w1 = Some c \<and> broker w1 0 = (Some e, ch) \<longrightarrow>
                 r = Inl (Error (''Error creating channel: '' @ toString e)) \<and>
                 w' = created (entry_channel f) c w1) \<and>
              (\<forall>c. rabbitConn w1 = Some c \<and> broker w1 0 = (None, None) \<longrightarrow>
                 r = Inl (undefined_property (method_name f)) \<and>
                 w' = created (entry_channel f) c w1)"
    if s: "entries opts = entries before @ f # rest"
      and b: "setupTopology before w = (Inr (), w1)"
      and g: "channels_get w1 (entry_channel f) = None"
    for before f rest w1
  proof -
    note eq = setupTopology_split [OF s b]
    have "r = Inl (Error (''Error creating channel: ''
                          @ toString (undefined_property ''createConfirmChannel''))) \<and> w' = w1"
      if "rabbitConn w1 = None"
      using eq assms g that by (simp add: process_entry_no_conn)
    moreover have "r = Inl (Error (''Error creating channel: '' @ toString e)) \<and>
                   w' = created (entry_channel f) c w1"
      if "rabbitConn w1 = Some c \<and> broker w1 0 = (Some e, ch)" for c e ch
      using eq assms g that by (simp add: process_entry_create)
    moreover have "r = Inl (undefined_property (method_name f)) \<and>
                   w' = created (entry_channel f) c w1"
      if "rabbitConn w1 = Some c \<and> broker w1 0 = (None, None)" for c
      using eq assms g that by (simp add: process_entry_create)
    ultimately show ?thesis by blast
  qed
  from asyncForEach_run [OF run] obtain asserted skipped new ps where
    e: "entries opts = asserted @ skipped" and t: "trace w' = trace w @ new" and
    a: "map Some (assertions new) = map (expected w') asserted" and
    p: "pending w' = pending w @ ps" and l: "list_all2 (in_flight_for w') ps asserted" and
    c: "case r of
          Inr u \<Rightarrow> skipped = []
        | Inl x \<Rightarrow>
            \<exists>f rest w1. skipped = f # rest \<and>
              asyncForEach asserted process_entry w = (Inr (), w1) \<and>
              process_entry f w1 = (Inl x, w')"
    by blast
  from t have n: "since w w' = new" by (simp add: since_def)
  have only: "\<exists>before f rest w1.
               entries opts = entries before @ f # rest \<and>
               setupTopology before w = (Inr (), w1) \<and>
               channels_get w1 (entry_channel f) = None \<and>
               (rabbitConn w1 = None \<or> \<not> granted (broker w1 0)) \<and>
               assertions (trace w') = assertions (trace w1)"
    if "r = Inl x" for x
  proof -
    from c that obtain f rest w1 where s: "skipped = f # rest" and
      b: "asyncForEach asserted process_entry w = (Inr (), w1)" and
      f: "process_entry f w1 = (Inl x, w')"
      by auto
    let ?before = "first_entries (length asserted) opts"
    have eb: "entries ?before = asserted" using e by (simp add: entries_first_entries)
    with b have sb: "setupTopology ?before w = (Inr (), w1)" by (simp add: setupTopology_loop)
    note rej = process_entry_rejected [OF f]
    then have g: "channels_get w1 (entry_channel f) = None" by simp
    have "rabbitConn w1 = None \<or> \<not> granted (broker w1 0)"
      using rej by (auto simp add: granted_def split: option.splits prod.splits)
    moreover have "assertions (trace w') = assertions (trace w1)"
      using rej by (auto simp add: created_assertions split: option.splits)
    ultimately show ?thesis using e s eb sb g
      by (rule_tac x = ?before in exI, rule_tac x = f in exI, rule_tac x = rest in exI,
          rule_tac x = w1 in exI) simp
  qed
  have look: "map_of (pending w') (fst p) = Some (snd p)"
    if "\<forall>q\<in>set (pending w). fst q < length (trace w)" and "p \<in> set ps" for p
  proof -
    from asyncForEach_keys [OF run] obtain ps' where
      "pending w' = pending w @ ps'" "distinct (map fst ps')"
      "\<forall>p\<in>set ps'. length (trace w) \<le> fst p \<and> fst p < length (trace w')"
      by blast
    with p have "distinct (map fst ps)" "\<forall>p\<in>set ps. length (trace w) \<le> fst p" by auto
    with that show ?thesis unfolding p by (intro pending_lookup) auto
  qed
  have fl: "\<exists>asserted skipped ps.
            entries opts = asserted @ skipped \<and>
            map Some (assertions (since w w')) = map (expected w') asserted \<and>
            pending w' = pending w @ ps \<and> list_all2 (in_flight_for w') ps asserted \<and>
            ((\<forall>q\<in>set (pending w). fst q < length (trace w)) \<longrightarrow>
               (\<forall>p\<in>set ps. map_of (pending w') (fst p) = Some (snd p)))"
    using e a p l n look
    by (rule_tac x = asserted in exI, rule_tac x = skipped in exI, rule_tac x = ps in exI) simp
  from "when" only fl show ?thesis
    by (simp add: deliver_failure deliver_channels deliver_assertions)
qed

lemma topology1_full_run:
  "fst (setupTopology topology1 full_world) =
     Inl (Error ''Error creating channel: Error: CHANNEL_MAX'')"
  "trace (snd (setupTopology topology1 full_world)) =
     [Call (CreateConfirmChannel 1), ChannelReply None (Some 100),
      Call (AssertExchange 100 ''logs'' ''fanout'' None),
      Call (CreateConfirmChannel 1), ChannelReply (Some (Error ''CHANNEL_MAX'')) None]"
  "pending (snd (setupTopology topology1 full_world)) = [(2, AssertExchangeCb ''pub'' False)]"
  "channels_get (snd (setupTopology topology1 full_world)) ''pub'' = Some 100"
  by (simp_all add: topology1_def full_world_def broker_full_def run_defs toString_def)

lemma topology1_first_run:
  "setupTopology (first_entries 1 topology1) full_world =
     (Inr (), snd (setupTopology (first_entries 1 topology1) full_world))"
  "channels_get (snd (setupTopology (first_entries 1 topology1) full_world)) ''sub'' = None"
  "rabbitConn (snd (setupTopology (first_entries 1 topology1) full_world)) = Some 1"
  "broker (snd (setupTopology (first_entries 1 topology1) full_world)) 0 =
     (Some (Error ''CHANNEL_MAX''), None)"
  "assertions (trace (snd (setupTopology (first_entries 1 topology1) full_world))) =
     [AssertExchange 100 ''logs'' ''fanout'' None]"
  by (simp_all add: first_entries_def topology1_def full_world_def broker_full_def run_defs
      prod_eq_iff assertions_def List.map_filter_def)

theorem setupTopology_abort_witness:
  "fst (setupTopology topology1 full_world) =
     Inl (Error ''Error creating channel: Error: CHANNEL_MAX'') \<and>
   assertions (trace (snd (setupTopology topology1 full_world))) =
     [AssertExchange 100 ''logs'' ''fanout'' None] \<and>
   trace (deliver 2 (Some (Error ''NOT_FOUND'')) (snd (setupTopology topology1 full_world))) =
     trace (snd (setupTopology topology1 full_world))
     @ [Reply 2 (Some (Error ''NOT_FOUND'')),
        Uncaught (Error ''Error in assertExchange(): Error: NOT_FOUND'')] \<and>
   (\<exists>before f rest w1.
      entries topology1 = entries before @ f # rest \<and>
      setupTopology before full_world = (Inr (), w1) \<and>
      channels_get w1 (entry_channel f) = None \<and>
      (rabbitConn w1 = None \<or> \<not> granted (broker w1 0)) \<and>
      assertions (trace (snd (setupTopology topology1 full_world))) = assertions (trace w1)) \<and>
   fst (setupTopology topology1 refusing_world) =
     Inl (Error ''Error creating channel: Error: CHANNEL_MAX'') \<and>
   assertions (trace (snd (setupTopology topology1 refusing_world))) = []"
proof -
  let ?w' = "snd (setupTopology topology1 full_world)"
  let ?w1 = "snd (setupTopology (first_entries 1 topology1) full_world)"
  let ?e = "ExchangeEntry \<lparr>ex_channel = ''pub'', ex_name = ''logs'', ex_type = ''fanout'',
                           ex_options = None\<rparr>"
  let ?f = "QueueEntry \<lparr>q_channel = ''sub'', q_name = ''q1'', q_options = None\<rparr>"
  let ?rest = "[QueueEntry \<lparr>q_channel = ''sub'', q_name = ''q2'', q_options = None\<rparr>,
                BindingEntry \<lparr>b_channel = ''sub'', b_queue = ''q1'', b_exchange = ''logs'',
                               b_key = ''k'', b_options = None\<rparr>]"
  note t = setupTopology_abort [OF surjective_pairing, of topology1 full_world]
  have s: "entries topology1 = entries (first_entries 1 topology1) @ ?f # ?rest"
    by (simp add: entries_first_entries topology1_entries)
  have c: "channels_get ?w1 (entry_channel ?f) = None" using topology1_first_run(2) by simp
  from t have
    "fst (setupTopology topology1 full_world) =
       Inl (Error (''Error creating channel: '' @ toString (Error ''CHANNEL_MAX''))) \<and>
     ?w' = created (entry_channel ?f) 1 ?w1"
    using s topology1_first_run(1) c topology1_first_run(3,4) by blast
  then have r: "fst (setupTopology topology1 full_world) =
       Inl (Error ''Error creating channel: Error: CHANNEL_MAX'')"
    and w': "?w' = created (entry_channel ?f) 1 ?w1"
    by (simp_all add: toString_def)
  from w' topology1_first_run(5)
  have a: "assertions (trace ?w') = [AssertExchange 100 ''logs'' ''fanout'' None]"
    by (simp add: created_assertions)
  have "in_flight_for ?w' (2, AssertExchangeCb ''pub'' False) ?e"
    by (simp add: in_flight_for_def topology1_full_run expected_def)
  moreover have "map_of (pending ?w') (fst (2::nat, AssertExchangeCb ''pub'' False)) =
                   Some (snd (2::nat, AssertExchangeCb ''pub'' False))"
    by (simp add: topology1_full_run)
  ultimately have
    "trace (deliver (fst (2::nat, AssertExchangeCb ''pub'' False)) (Some (Error ''NOT_FOUND'')) ?w') =
       trace ?w' @ [Reply (fst (2::nat, AssertExchangeCb ''pub'' False)) (Some (Error ''NOT_FOUND'')),
                    Uncaught (Error (failure_text ?e @ toString (Error ''NOT_FOUND'')))]"
    using t by blast
  then have d: "trace (deliver 2 (Some (Error ''NOT_FOUND'')) ?w') =
       trace ?w' @ [Reply 2 (Some (Error ''NOT_FOUND'')),
                    Uncaught (Error ''Error in assertExchange(): Error: NOT_FOUND'')]"
    by (simp add: toString_def)
  from t r have b: "\<exists>before f rest w1.
      entries topology1 = entries before @ f # rest \<and>
      setupTopology before full_world = (Inr (), w1) \<and>
      channels_get w1 (entry_channel f) = None \<and>
      (rabbitConn w1 = None \<or> \<not> granted (broker w1 0)) \<and>
      assertions (trace ?w') = assertions (trace w1)"
    by blast
  note first = setupTopology_abort [OF surjective_pairing, of topology1 refusing_world]
  have "entries opts_neither = []" by (simp add: entries_def opts_neither_def)
  then have "entries topology1 = entries opts_neither @ ?e # ?f # ?rest"
    by (simp add: topology1_entries)
  moreover have "setupTopology opts_neither refusing_world = (Inr (), refusing_world)"
    by (simp add: opts_neither_def run_defs)
  moreover have "channels_get refusing_world (entry_channel ?e) = None"
    by (simp add: refusing_world_def channels_get_def)
  moreover have "rabbitConn refusing_world = Some 1 \<and>
                 broker refusing_world 0 = (Some (Error ''CHANNEL_MAX''), None)"
    by (simp add: refusing_world_def broker_refusing_def)
  ultimately have
    "fst (setupTopology topology1 refusing_world) =
       Inl (Error (''Error creating channel: '' @ toString (Error ''CHANNEL_MAX''))) \<and>
     snd (setupTopology topology1 refusing_world) =
       created (entry_channel ?e) 1 refusing_world"
    using first by blast
  then have r0: "fst (setupTopology topology1 refusing_world) =
       Inl (Error ''Error creating channel: Error: CHANNEL_MAX'')"
    and w0: "snd (setupTopology topology1 refusing_world) =
       created (entry_channel ?e) 1 refusing_world"
    by (simp_all add: toString_def)
  have "assertions (trace refusing_world) = []"
    by (simp add: refusing_world_def assertions_skip)
  then have a0: "assertions (trace (snd (setupTopology topology1 refusing_world))) = []"
    by (simp only: w0 created_assertions)
  from r a d b r0 a0 show ?thesis by (intro conjI)
qed


section \<open>What topology application waits for\<close>

text \<open>
  Claim C3, as stated, fails.  Two exchanges on one channel: the assertion of the
  second is invoked (position 3) with the assertion of the first (position 2)
  unanswered, and both are in flight when \<^verbatim>\<open>setupTopology\<close> resolves.  Between the
  two assertions the client awaits nothing from the broker: the channel was created for
  the first exchange, and \<^verbatim>\<open>assertExchange\<close> returns without waiting for its reply.
\<close>

theorem assertions_overlap:
  "fst (setupTopology exchanges2 fresh_world) = Inr () \<and>
   trace (snd (setupTopology exchanges2 fresh_world)) =
     [Call (CreateConfirmChannel 1), ChannelReply None (Some 100),
      Call (AssertExchange 100 ''e1'' ''fanout'' None),
      Call (AssertExchange 100 ''e2'' ''fanout'' None)] \<and>
   pending (snd (setupTopology exchanges2 fresh_world)) =
     [(2, AssertExchangeCb ''c'' False), (3, AssertExchangeCb ''c'' False)] \<and>
   overlap None 0 (trace (snd (setupTopology exchanges2 fresh_world)))"
  by (simp add: exchanges2_def fresh_world_def broker_ok_def run_defs)

text \<open>
  Claim C3, amended.  What \<^verbatim>\<open>setupTopology\<close> waits for is the creation of channels:
  in the part of the trace it writes, no primitive is invoked while a channel creation is
  unanswered, so no two creations are in flight together, and none is when it returns.
\<close>

theorem setupTopology_creations_one_at_a_time:
  "one_at_a_time False (since w (snd (setupTopology opts w))) = Some False"
proof -
  obtain r w' where s: "setupTopology opts w = (r, w')" by (cases "setupTopology opts w")
  then have "asyncForEach (entries opts) process_entry w = (r, w')"
    by (simp add: setupTopology_loop)
  from asyncForEach_segments [OF this] obtain new where
    "trace w' = trace w @ new" "one_at_a_time False new = Some False"
    by blast
  with s show ?thesis by (simp add: since_def)
qed

theorem setupTopology_creations_one_at_a_time_witness:
  "since fresh_world (snd (setupTopology topology1 fresh_world)) =
     [Call (CreateConfirmChannel 1), ChannelReply None (Some 100),
      Call (AssertExchange 100 ''logs'' ''fanout'' None),
      Call (CreateConfirmChannel 1), ChannelReply None (Some 101),
      Call (AssertQueue 101 ''q1'' None), Call (AssertQueue 101 ''q2'' None),
      Call (BindQueue 101 ''q1'' ''logs'' ''k'' None)] \<and>
   one_at_a_time False (since fresh_world (snd (setupTopology topology1 fresh_world))) =
     Some False"
proof -
  have "trace fresh_world = []" by (simp add: fresh_world_def)
  then show ?thesis
    using setupTopology_creations_one_at_a_time [of fresh_world topology1]
    by (simp add: since_def topology1_run)
qed

section \<open>Get or create\<close>

text \<open>
  Claim C4.  \<^verbatim>\<open>getChannel\<close> returns the channel stored under the name when there is
  one, and leaves the world as it is.  Otherwise, when the library grants the creation,
  it invokes one creation on the connection, stores the new channel under the name and
  returns it; a second call then returns the same channel and invokes nothing.
\<close>

theorem getChannel_get_or_create:
  "(channels_get w channelName = Some ch \<longrightarrow>
      getChannel channelName False w = (Inr (Some ch), w)) \<and>
   (channels_get w channelName = None \<and> rabbitConn w = Some c \<and>
    broker w 0 = (None, Some ch) \<longrightarrow>
      (case getChannel channelName False w of
         (r1, w1) \<Rightarrow>
           r1 = Inr (Some ch) \<and>
           channels w1 = (channels w)(channelName \<mapsto> Some ch) \<and>
           since w w1 = [Call (CreateConfirmChannel c), ChannelReply None (Some ch)] \<and>
           getChannel channelName False w1 = (Inr (Some ch), w1)))"
proof -
  have "channels_get (created channelName c w) channelName = Some ch"
    if "broker w 0 = (None, Some ch)"
    using that by (simp add: created_def channels_get_def)
  then show ?thesis
    by (auto simp add: getChannel_found getChannel_create since_def created_def)
qed

theorem getChannel_get_or_create_witness:
  "getChannel ''a'' False fresh_world =
     (Inr (Some 100), snd (getChannel ''a'' False fresh_world)) \<and>
   channels_get (snd (getChannel ''a'' False fresh_world)) ''a'' = Some 100 \<and>
   since fresh_world (snd (getChannel ''a'' False fresh_world)) =
     [Call (CreateConfirmChannel 1), ChannelReply None (Some 100)] \<and>
   getChannel ''a'' False (snd (getChannel ''a'' False fresh_world)) =
     (Inr (Some 100), snd (getChannel ''a'' False fresh_world))"
proof -
  have h: "channels_get fresh_world ''a'' = None \<and> rabbitConn fresh_world = Some 1 \<and>
           broker fresh_world 0 = (None, Some 100)"
    by (simp add: fresh_world_def channels_get_def broker_ok_def)
  from getChannel_get_or_create [of fresh_world "''a''" 100 1] h
  show ?thesis
    by (auto simp add: channels_get_def split: prod.splits)
qed

text \<open>
  Claim C5 fails on the code.  Two calls for one unregistered name, the second made
  before the first is answered: both find the name absent, two creations are invoked, the
  callers receive different channels, and the registry keeps the second.
\<close>

theorem getChannel_race:
  assumes "channels_get w channelName = None" and "rabbitConn w = Some c"
    and "broker w 0 = (None, Some ch1)" and "broker w 1 = (None, Some ch2)"
  shows "fst (getChannel_concurrently channelName w) = (Inr (Some ch1), Inr (Some ch2)) \<and>
         since w (snd (getChannel_concurrently channelName w)) =
           [Call (CreateConfirmChannel c), Call (CreateConfirmChannel c),
            ChannelReply None (Some ch1), ChannelReply None (Some ch2)] \<and>
         channels_get (snd (getChannel_concurrently channelName w)) channelName = Some ch2"
  using assms
  by (simp add: getChannel_concurrently_def getChannel_begin_def getChannel_resume_def
      getChannel_settled_def createConfirmChannel_cb_def next_reply_def invoke_def emit_def
      setChannel_def channels_get_def since_def)

theorem getChannel_race_witness:
  "fst (getChannel_concurrently ''a'' fresh_world) = (Inr (Some 100), Inr (Some 101)) \<and>
   since fresh_world (snd (getChannel_concurrently ''a'' fresh_world)) =
     [Call (CreateConfirmChannel 1), Call (CreateConfirmChannel 1),
      ChannelReply None (Some 100), ChannelReply None (Some 101)] \<and>
   channels_get (snd (getChannel_concurrently ''a'' fresh_world)) ''a'' = Some 101"
  using getChannel_race [of fresh_world "''a''" 1 100 101]
  by (simp add: fresh_world_def channels_get_def broker_ok_def)

text \<open>
  Claim C10.  When the library refuses a channel creation, the promise of
  \<^verbatim>\<open>createConfirmChannelPromise\<close> is rejected with the library's error and the name is
  stored in the registry all the same, holding \<^verbatim>\<open>undefined\<close>; a name that was absent is
  a new key.  \<^verbatim>\<open>getChannel\<close> for an unregistered name is rejected and leaves that entry.
\<close>

theorem failed_creation_is_registered:
  assumes "rabbitConn w = Some c" and "broker w 0 = (Some e, None)"
  shows "fst (createConfirmChannelPromise channelName w) = Inl e \<and>
         channels (snd (createConfirmChannelPromise channelName w)) =
           (channels w)(channelName \<mapsto> None) \<and>
         (channels_get w channelName = None \<longrightarrow>
            fst (getChannel channelName False w) =
              Inl (Error (''Error creating channel: '' @ toString e)) \<and>
            channels (snd (getChannel channelName False w)) =
              (channels w)(channelName \<mapsto> None)) \<and>
         (channels w channelName = None \<longrightarrow>
            channels (snd (createConfirmChannelPromise channelName w)) \<noteq> channels w \<and>
            dom (channels (snd (createConfirmChannelPromise channelName w))) =
              insert channelName (dom (channels w)))"
proof -
  have p: "createConfirmChannelPromise channelName w = (Inl e, created channelName c w)"
    using assms
    by (simp add: createConfirmChannelPromise_def next_reply_def invoke_def emit_def
        createConfirmChannel_cb_def setChannel_def created_def)
  have c: "channels (created channelName c w) = (channels w)(channelName \<mapsto> None)"
    using assms by (simp add: created_def)
  have g: "channels_get w channelName = None \<Longrightarrow>
     getChannel channelName False w =
       (Inl (Error (''Error creating channel: '' @ toString e)), created channelName c w)"
    using assms by (simp add: getChannel_create)
  have n: "channels w channelName = None \<Longrightarrow>
     (channels w)(channelName \<mapsto> None) \<noteq> channels w"
    by (metis fun_upd_same option.distinct(1))
  show ?thesis using p c g n by auto
qed

theorem failed_creation_is_registered_witness:
  "fst (createConfirmChannelPromise ''a'' refusing_world) = Inl (Error ''CHANNEL_MAX'') \<and>
   channels refusing_world ''a'' = None \<and>
   channels (snd (createConfirmChannelPromise ''a'' refusing_world)) ''a'' = Some None \<and>
   fst (getChannel ''a'' False refusing_world) =
     Inl (Error ''Error creating channel: Error: CHANNEL_MAX'') \<and>
   channels (snd (getChannel ''a'' False refusing_world)) ''a'' = Some None"
proof -
  have h: "rabbitConn refusing_world = Some 1"
    "broker refusing_world 0 = (Some (Error ''CHANNEL_MAX''), None)"
    "channels refusing_world ''a'' = None" "channels_get refusing_world ''a'' = None"
    by (simp_all add: refusing_world_def broker_refusing_def channels_get_def)
  from failed_creation_is_registered [OF h(1) h(2), of "''a''"] h(3) h(4)
  show ?thesis by (simp add: toString_def)
qed

section \<open>Operations on a channel that must exist\<close>

lemma on_channel_absent: "on_channel None f w = (Inl (Error msg_not_found), w)"
  by (simp add: on_channel_def checkChannelExists_def)

text \<open>
  Claim C6.  On a name for which the registry holds no channel, each of the six
  operations throws the error of \<^verbatim>\<open>checkChannelExists\<close> and leaves the world as it was:
  nothing is invoked on the library and the registry is unchanged.
\<close>

theorem unregistered_channel_not_found:
  assumes "channels_get w channelName = None"
  shows "ack channelName message allUpTo w = (Inl (Error msg_not_found), w) \<and>
         nack channelName message allUpTo requeue w = (Inl (Error msg_not_found), w) \<and>
         ackAll channelName w = (Inl (Error msg_not_found), w) \<and>
         nackAll channelName requeue w = (Inl (Error msg_not_found), w) \<and>
         cancelChannel channelName w = (Inl (Error msg_not_found), w) \<and>
         closeChannel channelName w = (Inl (Error msg_not_found), w)"
  using assms
  by (simp add: ack_def nack_def ackAll_def nackAll_def cancelChannel_def closeChannel_def
      on_channel_absent)

theorem unregistered_channel_not_found_witness:
  "ack ''a'' \<lparr>content = (), msg = Delivery ''{}'' 1\<rparr> False fresh_world =
     (Inl (Error msg_not_found), fresh_world) \<and>
   nack ''a'' \<lparr>content = (), msg = Delivery ''{}'' 1\<rparr> False True fresh_world =
     (Inl (Error msg_not_found), fresh_world) \<and>
   ackAll ''a'' fresh_world = (Inl (Error msg_not_found), fresh_world) \<and>
   nackAll ''a'' True fresh_world = (Inl (Error msg_not_found), fresh_world) \<and>
   cancelChannel ''a'' fresh_world = (Inl (Error msg_not_found), fresh_world) \<and>
   closeChannel ''a'' fresh_world = (Inl (Error msg_not_found), fresh_world)"
proof -
  have "channels_get fresh_world ''a'' = None"
    by (simp add: fresh_world_def channels_get_def)
  then show ?thesis by (rule unregistered_channel_not_found)
qed

section \<open>Connecting\<close>

text \<open>
  Claim C7 fails on the code.  When the library reports an error for the connection,
  the handler throws a \<open>ReferenceError\<close> and leaves the world as it was, whether or not
  a callback was given: the callback is not called.
\<close>

theorem connect_error_not_passed_to_callback:
  "connect_cb opts callback (Some e) conn w = (Inl (ReferenceError ''cb is not defined''), w)"
  by (simp add: connect_cb_def)

text \<open>
  Claim C8.  With a descriptor and a URL, and with neither, \<^verbatim>\<open>connect\<close> throws its
  configuration error and leaves the world as it was: \<^verbatim>\<open>amqp.connect\<close> is not invoked.
  The code tests truthiness, so a URL that is the empty string counts as none.
\<close>

theorem connect_validates_configuration:
  "(connection opts = Some d \<and> url opts = Some u \<and> u \<noteq> [] \<longrightarrow>
      connect opts callback w = (Inl (Error msg_both), w)) \<and>
   (connection opts = None \<and> (url opts = None \<or> url opts = Some []) \<longrightarrow>
      connect opts callback w = (Inl (Error msg_neither), w))"
  by (auto simp add: connect_def truthy_string_def)

theorem connect_validates_configuration_witness:
  "connect opts_both True fresh_world = (Inl (Error msg_both), fresh_world) \<and>
   connect opts_neither True fresh_world = (Inl (Error msg_neither), fresh_world)"
  using connect_validates_configuration [of opts_both
      "\<lparr>protocol = ''amqp'', hostname = ''localhost'', port = 5672\<rparr>" "''amqp://localhost''"
      True fresh_world]
    connect_validates_configuration [of opts_neither _ _ True fresh_world]
  by (simp add: opts_both_def opts_neither_def)

section \<open>Round trip of a message body\<close>



lemma below_ten:
  "d < 10 \<Longrightarrow> d = 0 \<or> d = 1 \<or> d = 2 \<or> d = 3 \<or> d = 4 \<or> d = 5 \<or> d = 6 \<or> d = 7 \<or> d = 8 \<or> d = (9::nat)"
  by arith

lemma digit_value: "d < 10 \<Longrightarrow> of_char (digit d) - 48 = (d::nat)"
  by (drule below_ten) (auto simp add: digit_def)

lemma digit_is_digit: "d < 10 \<Longrightarrow> is_digit (digit d)"
  by (drule below_ten) (auto simp add: digit_def is_digit_def)

lemma digits_ok: "set (digits n) \<subseteq> Collect is_digit \<and> digits n \<noteq> [] \<and>
   foldl (\<lambda>n d. 10 * n + (of_char d - 48)) 0 (digits n) = n"
proof (induction n rule: digits.induct)
  case (1 n)
  show ?case
  proof (cases "n < 10")
    case True
    then show ?thesis by (simp add: digits.simps digit_value digit_is_digit)
  next
    case False
    with 1 have ih: "set (digits (n div 10)) \<subseteq> Collect is_digit"
      "foldl (\<lambda>n d. 10 * n + (of_char d - 48)) 0 (digits (n div 10)) = n div 10"
      by simp_all
    have d: "digits n = digits (n div 10) @ [digit (n mod 10)]"
      using False by (subst digits.simps) simp
    have "n mod 10 < 10" by simp
    then show ?thesis using ih
      by (simp add: d digit_value digit_is_digit)
  qed
qed




lemma is_digit_distinct:
  "is_digit c \<Longrightarrow> c \<noteq> CHR ''n'' \<and> c \<noteq> CHR ''t'' \<and> c \<noteq> CHR ''f'' \<and> c \<noteq> CHR 0x22 \<and>
     c \<noteq> CHR ''['' \<and> c \<noteq> CHR ''{'' \<and> c \<noteq> CHR '']'' \<and> c \<noteq> CHR ''}''"
  by (auto simp add: is_digit_def)

lemma digits_Cons: "\<exists>c cs. digits n = c # cs \<and> is_digit c"
  using digits_ok [of n] by (cases "digits n") auto

lemma stringify_Cons: "\<exists>c cs. stringify v = c # cs \<and> c \<noteq> CHR '']'' \<and> c \<noteq> CHR ''}''"
proof (cases v)
  case (JNumber n)
  from digits_Cons [of n] obtain c cs where "digits n = c # cs" "is_digit c" by blast
  with JNumber show ?thesis using is_digit_distinct [of c] by simp
qed (simp_all add: quoted_def)





lemma stringify_nonempty: "1 \<le> length (stringify v)"
  using stringify_Cons [of v] by auto








end
